theory Spec2Isabelle
  imports Main "HOL-Library.Sublist"
begin

section \<open>Go types, values and memory\<close>

text \<open>
  The evaluator of \<^verbatim>\<open>structor.go\<close> works on arbitrary Go values through the
  \<^verbatim>\<open>reflect\<close> package. The fragment of Go modelled here has the kinds bool, int,
  string, slice, pointer, the empty interface and struct. A struct type carries its
  name (as \<^verbatim>\<open>%T\<close> prints it) and, per field, the name, the raw tag, whether the
  field is exported, and the field's type.
\<close>

datatype kind = KInvalid | KBool | KInt | KString | KSlice | KPtr | KInterface | KStruct

datatype gtype = TBool | TInt | TString | TSlice gtype | TPtr gtype | TIface
  | TStruct string "(string \<times> string \<times> bool \<times> gtype) list"

type_synonym fdecl = "string \<times> string \<times> bool \<times> gtype"

definition fd_name :: "fdecl \<Rightarrow> string" where "fd_name d = fst d"
definition fd_tag :: "fdecl \<Rightarrow> string" where "fd_tag d = fst (snd d)"
definition fd_exported :: "fdecl \<Rightarrow> bool" where "fd_exported d = fst (snd (snd d))"
definition fd_type :: "fdecl \<Rightarrow> gtype" where "fd_type d = snd (snd (snd d))"

fun kindOf :: "gtype \<Rightarrow> kind" where
  "kindOf TBool = KBool"
| "kindOf TInt = KInt"
| "kindOf TString = KString"
| "kindOf (TSlice _) = KSlice"
| "kindOf (TPtr _) = KPtr"
| "kindOf TIface = KInterface"
| "kindOf (TStruct _ _) = KStruct"

text \<open>
  Memory is a heap of objects; a location is an object's address and a path of field
  indices into it (the address of a field of a struct lies inside the struct). Data
  is untyped, as in memory: a pointer is nil or a location, an interface value is nil
  or a dynamic type with its data.
\<close>

type_synonym loc = "nat \<times> nat list"

datatype gval = VBool bool | VInt int | VString string | VSlice "gval list"
  | VPtr "loc option" | VIface "(gtype \<times> gval) option" | VStruct "gval list"

type_synonym iface = "(gtype \<times> gval) option"

type_synonym heap = "nat \<Rightarrow> gval option"

primrec getPath :: "nat list \<Rightarrow> gval \<Rightarrow> gval option" where
  "getPath [] v = Some v"
| "getPath (i # p) v =
     (case v of
        VStruct vs \<Rightarrow> (if i < length vs then getPath p (vs ! i) else None)
      | _ \<Rightarrow> None)"

primrec setPath :: "nat list \<Rightarrow> gval \<Rightarrow> gval \<Rightarrow> gval option" where
  "setPath [] v x = Some x"
| "setPath (i # p) v x =
     (case v of
        VStruct vs \<Rightarrow>
          (if i < length vs
           then (case setPath p (vs ! i) x of
                   None \<Rightarrow> None
                 | Some y \<Rightarrow> Some (VStruct (vs[i := y])))
           else None)
      | _ \<Rightarrow> None)"

definition hread :: "heap \<Rightarrow> loc \<Rightarrow> gval option" where
  "hread h l = (case h (fst l) of None \<Rightarrow> None | Some v \<Rightarrow> getPath (snd l) v)"

definition hwrite :: "heap \<Rightarrow> loc \<Rightarrow> gval \<Rightarrow> heap option" where
  "hwrite h l x =
     (case h (fst l) of
        None \<Rightarrow> None
      | Some v \<Rightarrow> (case setPath (snd l) v x of
                     None \<Rightarrow> None
                   | Some v' \<Rightarrow> Some (h(fst l \<mapsto> v'))))"


section \<open>The fragment of package reflect that the evaluator uses\<close>

text \<open>
  Package \<^verbatim>\<open>reflect\<close> is Go's library, not part of the repository; the functions
  below model the operations \<^verbatim>\<open>structor.go\<close> calls, on the fragment of types above.
  A \<^verbatim>\<open>reflect.Value\<close> is the zero Value or a static type, the storage it denotes (a
  location of the heap when it is addressable, a private copy of the data otherwise)
  and the read-only flag of values reached through an unexported field.

  A panic is a result of its own (\<open>Panic\<close>). The outer \<open>option\<close> of the functions
  that read memory is \<open>None\<close> when the heap does not hold, at a location, data of
  the shape the static type says; Go's type system excludes that.
\<close>

datatype rsrc = At loc | Inline gval

datatype rvalue = RInvalid | RV gtype rsrc bool

datatype rpanic = PError string | PString string

datatype 'a res = Panic rpanic | Ret 'a

fun typeString :: "gtype \<Rightarrow> string" where
  "typeString TBool = ''bool''"
| "typeString TInt = ''int''"
| "typeString TString = ''string''"
| "typeString (TSlice t) = ''[]'' @ typeString t"
| "typeString (TPtr t) = ''*'' @ typeString t"
| "typeString TIface = ''interface {}''"
| "typeString (TStruct n _) = n"

definition ValueOf :: "iface \<Rightarrow> rvalue" where
  "ValueOf i = (case i of None \<Rightarrow> RInvalid | Some (t, d) \<Rightarrow> RV t (Inline d) False)"

fun IsValid :: "rvalue \<Rightarrow> bool" where
  "IsValid RInvalid = False"
| "IsValid (RV _ _ _) = True"

fun Kind :: "rvalue \<Rightarrow> kind" where
  "Kind RInvalid = KInvalid"
| "Kind (RV t _ _) = kindOf t"

fun CanAddr :: "rvalue \<Rightarrow> bool" where
  "CanAddr (RV _ (At _) _) = True"
| "CanAddr _ = False"

fun CanSet :: "rvalue \<Rightarrow> bool" where
  "CanSet (RV _ (At _) ro) = (\<not> ro)"
| "CanSet _ = False"

definition rload :: "heap \<Rightarrow> rsrc \<Rightarrow> gval option" where
  "rload h s = (case s of Inline d \<Rightarrow> Some d | At l \<Rightarrow> hread h l)"

text \<open>
  \<^verbatim>\<open>Value.Elem\<close> of a pointer is the zero Value when the pointer is nil and the
  addressable pointee otherwise; of an interface it is the zero Value when the
  interface is nil and a copy of the dynamic value, not addressable, otherwise. The
  read-only flag is inherited. On every other kind reflect panics.
\<close>

definition Elem :: "heap \<Rightarrow> rvalue \<Rightarrow> rvalue res option" where
  "Elem h v =
     (case v of
        RInvalid \<Rightarrow> Some (Panic (PError ''reflect: call of reflect.Value.Elem on zero Value''))
      | RV t s ro \<Rightarrow>
          (case t of
             TPtr et \<Rightarrow>
               (case rload h s of
                  Some (VPtr None) \<Rightarrow> Some (Ret RInvalid)
                | Some (VPtr (Some l)) \<Rightarrow> Some (Ret (RV et (At l) ro))
                | _ \<Rightarrow> None)
           | TIface \<Rightarrow>
               (case rload h s of
                  Some (VIface None) \<Rightarrow> Some (Ret RInvalid)
                | Some (VIface (Some (dt, d))) \<Rightarrow> Some (Ret (RV dt (Inline d) ro))
                | _ \<Rightarrow> None)
           | _ \<Rightarrow> Some (Panic (PError (''reflect: call of reflect.Value.Elem on ''
                                         @ typeString t @ '' Value'')))))"

text \<open>\<^verbatim>\<open>reflect.Indirect\<close>: the pointee of a pointer, any other value unchanged.\<close>

definition Indirect :: "heap \<Rightarrow> rvalue \<Rightarrow> rvalue option" where
  "Indirect h v =
     (if Kind v \<noteq> KPtr then Some v
      else (case Elem h v of Some (Ret w) \<Rightarrow> Some w | _ \<Rightarrow> None))"

text \<open>
  \<^verbatim>\<open>Value.Field(i)\<close> of a struct Value, for \<open>i\<close> below the number of fields: the
  field's declared type, its storage inside the struct's, read-only when the struct
  is or the field is unexported. (Promotion of embedded fields is not modelled.)
\<close>

definition Field :: "rvalue \<Rightarrow> nat \<Rightarrow> rvalue option" where
  "Field v i =
     (case v of
        RV (TStruct n ds) s ro \<Rightarrow>
          (if i < length ds
           then (case s of
                   At l \<Rightarrow>
                     Some (RV (fd_type (ds ! i)) (At (fst l, snd l @ [i]))
                              (ro \<or> \<not> fd_exported (ds ! i)))
                 | Inline (VStruct vs) \<Rightarrow>
                     (if i < length vs
                      then Some (RV (fd_type (ds ! i)) (Inline (vs ! i))
                                    (ro \<or> \<not> fd_exported (ds ! i)))
                      else None)
                 | Inline _ \<Rightarrow> None)
           else None)
      | _ \<Rightarrow> None)"

text \<open>
  \<^verbatim>\<open>Value.Interface()\<close> panics on the zero Value and on a value obtained through an
  unexported field; of an interface-kinded Value it is the interface value itself.
\<close>

definition Interface :: "heap \<Rightarrow> rvalue \<Rightarrow> iface res option" where
  "Interface h v =
     (case v of
        RInvalid \<Rightarrow> Some (Panic (PError ''reflect: call of reflect.Value.Interface on zero Value''))
      | RV t s ro \<Rightarrow>
          (if ro
           then Some (Panic (PString ''reflect.Value.Interface: cannot return value obtained from unexported field or method''))
           else (case rload h s of
                   None \<Rightarrow> None
                 | Some d \<Rightarrow>
                     (if t = TIface
                      then (case d of VIface x \<Rightarrow> Some (Ret x) | _ \<Rightarrow> None)
                      else Some (Ret (Some (t, d)))))))"

text \<open>\<^verbatim>\<open>Value.Addr()\<close> of an addressable Value: a pointer Value, itself not addressable.\<close>

definition Addr :: "rvalue \<Rightarrow> rvalue res" where
  "Addr v =
     (case v of
        RV t (At l) ro \<Rightarrow> Ret (RV (TPtr t) (Inline (VPtr (Some l))) ro)
      | _ \<Rightarrow> Panic (PString ''reflect.Value.Addr of unaddressable value''))"


text \<open>\<^verbatim>\<open>reflect.Zero\<close>: the zero value of a type.\<close>

fun Zero :: "gtype \<Rightarrow> gval" where
  "Zero TBool = VBool False"
| "Zero TInt = VInt 0"
| "Zero TString = VString []"
| "Zero (TSlice _) = VSlice []"
| "Zero (TPtr _) = VPtr None"
| "Zero TIface = VIface None"
| "Zero (TStruct n ds) = VStruct (map (\<lambda>d. Zero (snd (snd (snd d)))) ds)"

text \<open>
  Conversion of an integer to a string gives the UTF-8 encoding of the code point,
  of U+FFFD when the integer is not a valid code point.
\<close>

definition utf8 :: "int \<Rightarrow> string" where
  "utf8 r =
     (if r < 128 then [char_of r]
      else if r < 2048 then [char_of (192 + r div 64), char_of (128 + r mod 64)]
      else if r < 65536
        then [char_of (224 + r div 4096), char_of (128 + (r div 64) mod 64),
              char_of (128 + r mod 64)]
      else [char_of (240 + r div 262144), char_of (128 + (r div 4096) mod 64),
            char_of (128 + (r div 64) mod 64), char_of (128 + r mod 64)])"

definition encodeRune :: "int \<Rightarrow> string" where
  "encodeRune r =
     (if r < 0 \<or> 1114111 < r \<or> (55296 \<le> r \<and> r \<le> 57343) then utf8 65533 else utf8 r)"

definition cvtIntString :: "gval \<Rightarrow> gval" where
  "cvtIntString d = (case d of VInt i \<Rightarrow> VString (encodeRune i) | _ \<Rightarrow> d)"

definition cvtT2I :: "gtype \<Rightarrow> gval \<Rightarrow> gval" where
  "cvtT2I src d = VIface (Some (src, d))"

text \<open>
  Two types have identical underlying types when they are equal or are struct types
  whose fields agree in name and type (tags are ignored by conversion).
\<close>

definition untag :: "fdecl \<Rightarrow> string \<times> bool \<times> gtype" where
  "untag d = (fd_name d, fd_exported d, fd_type d)"

fun underlyingEq :: "gtype \<Rightarrow> gtype \<Rightarrow> bool" where
  "underlyingEq (TStruct n ds) (TStruct m es) = (map untag ds = map untag es)"
| "underlyingEq a b = (a = b)"

text \<open>
  \<^verbatim>\<open>convertOp dst src\<close> is reflect's table of conversions: the function converting
  data of type \<open>src\<close> to type \<open>dst\<close>, or nil. \<^verbatim>\<open>ConvertibleTo\<close> asks whether it is
  nil, \<^verbatim>\<open>Convert\<close> applies it and panics when it is nil.
\<close>

definition convertOp :: "gtype \<Rightarrow> gtype \<Rightarrow> (gval \<Rightarrow> gval) option" where
  "convertOp dst src =
     (if src = TInt \<and> dst = TString then Some cvtIntString
      else if underlyingEq dst src then Some (\<lambda>d. d)
      else (case (dst, src) of
              (TPtr a, TPtr b) \<Rightarrow>
                (if underlyingEq a b then Some (\<lambda>d. d) else None)
            | (TIface, _) \<Rightarrow> Some (cvtT2I src)
            | _ \<Rightarrow> None))"

definition ConvertibleTo :: "gtype \<Rightarrow> gtype \<Rightarrow> bool" where
  "ConvertibleTo src dst = (convertOp dst src \<noteq> None)"

definition Convert :: "heap \<Rightarrow> rvalue \<Rightarrow> gtype \<Rightarrow> rvalue res option" where
  "Convert h v t =
     (case v of
        RInvalid \<Rightarrow> Some (Panic (PError ''reflect: call of reflect.Value.Convert on zero Value''))
      | RV st s ro \<Rightarrow>
          (case convertOp t st of
             None \<Rightarrow> Some (Panic (PString (''reflect.Value.Convert: value of type ''
                       @ typeString st @ '' cannot be converted to type '' @ typeString t)))
           | Some op \<Rightarrow>
               (case rload h s of
                  None \<Rightarrow> None
                | Some d \<Rightarrow> Some (Ret (RV t (Inline (op d)) ro)))))"

text \<open>
  \<^verbatim>\<open>v.Set(x)\<close> panics unless \<open>v\<close> is valid, not read-only and addressable and \<open>x\<close>
  is valid and not read-only; \<open>x\<close> must be assignable to the type of \<open>v\<close>: of the
  same type, or \<open>v\<close> is an interface, which then holds \<open>x\<close> with its type.
\<close>

definition Set :: "heap \<Rightarrow> rvalue \<Rightarrow> rvalue \<Rightarrow> heap res option" where
  "Set h v x =
     (case v of
        RInvalid \<Rightarrow> Some (Panic (PError ''reflect: call of reflect.Value.Set on zero Value''))
      | RV t s ro \<Rightarrow>
          (if ro
           then Some (Panic (PString ''reflect: reflect.Value.Set using value obtained using unexported field''))
           else (case s of
                   Inline _ \<Rightarrow>
                     Some (Panic (PString ''reflect: reflect.Value.Set using unaddressable value''))
                 | At l \<Rightarrow>
                     (case x of
                        RInvalid \<Rightarrow>
                          Some (Panic (PError ''reflect: call of reflect.Value.Set on zero Value''))
                      | RV xt xs xro \<Rightarrow>
                          (if xro
                           then Some (Panic (PString ''reflect: reflect.Value.Set using value obtained using unexported field''))
                           else (case rload h xs of
                                   None \<Rightarrow> None
                                 | Some d \<Rightarrow>
                                     (if xt = t
                                      then map_option Ret (hwrite h l d)
                                      else if t = TIface
                                      then map_option Ret (hwrite h l (VIface (Some (xt, d))))
                                      else Some (Panic (PString (''reflect.Set: value of type ''
                                             @ typeString xt @ '' is not assignable to type ''
                                             @ typeString t))))))))))"


section \<open>The evaluator of structor.go\<close>

subsection \<open>Expression context, interpreters, scanner, options\<close>

text \<open>
  \<^verbatim>\<open>el.Context\<close> as the literal in \<^verbatim>\<open>eval\<close> fills it. (Its \<^verbatim>\<open>EvalExpr\<close> slot always
  holds the evaluator's method \<^verbatim>\<open>evalExpr\<close>, modelled below as a function of its own.)
  The tag map is kept as the list of its entries in the order in which \<^verbatim>\<open>range\<close>
  visits them; Go leaves that order open.
\<close>

record ctx =
  Name :: string
  LongName :: string
  Tags :: "(string \<times> string) list"
  Struct :: iface
  Extra :: iface
  Sub :: iface
  Val :: iface

text \<open>
  An interpreter's \<^verbatim>\<open>Execute(expr, ctx)\<close> returns a result or an error (its message)
  and may change memory. The registry maps a tag name to an interpreter; as an
  interface value a registered interpreter may be nil (\<open>Some None\<close>). The scanner
  returns the tag map or an error (its message).
\<close>

type_synonym interp = "string \<Rightarrow> ctx \<Rightarrow> heap \<Rightarrow> (string + iface) \<times> heap"

type_synonym Interpreters = "string \<Rightarrow> interp option option"

record Options =
  NonMutating :: bool
  EvalEmptyTags :: bool

record evaluator =
  scanner :: "string \<Rightarrow> string + (string \<times> string) list"
  interpreters :: Interpreters
  options :: Options

definition WholeTag :: string where
  "WholeTag = []"

text \<open>The constructors; \<open>None\<close> is the panic "no interpreters registered".\<close>

definition NewEvaluatorWithOptions ::
  "(string \<Rightarrow> string + (string \<times> string) list) \<Rightarrow> Interpreters \<Rightarrow> Options \<Rightarrow> evaluator option" where
  "NewEvaluatorWithOptions sc is opts =
     (if dom is = {} then None
      else Some \<lparr>scanner = sc, interpreters = is, options = opts\<rparr>)"

definition NewEvaluator ::
  "(string \<Rightarrow> string + (string \<times> string) list) \<Rightarrow> Interpreters \<Rightarrow> evaluator option" where
  "NewEvaluator sc is =
     NewEvaluatorWithOptions sc is \<lparr>NonMutating = False, EvalEmptyTags = False\<rparr>"

definition NewNonmutatingEvaluator ::
  "(string \<Rightarrow> string + (string \<times> string) list) \<Rightarrow> Interpreters \<Rightarrow> evaluator option" where
  "NewNonmutatingEvaluator sc is =
     NewEvaluatorWithOptions sc is \<lparr>NonMutating = True, EvalEmptyTags = False\<rparr>"

subsection \<open>Errors\<close>

text \<open>
  The errors the evaluator builds: the root-argument error of \<^verbatim>\<open>structIntrospect\<close>,
  an error wrapped as \<^verbatim>\<open>structor: <<longName>>: detail\<close>, an interpreter's own error,
  and the aggregate of package multierror.
\<close>

datatype error = RootError iface kind | Wrapped string string | Raised string
  | Multi "error list"

text \<open>\<^verbatim>\<open>multierror.Append(merr, err)\<close>: appends, flattening aggregates.\<close>

definition Append :: "error option \<Rightarrow> error \<Rightarrow> error" where
  "Append merr err =
     Multi ((case merr of None \<Rightarrow> [] | Some (Multi es) \<Rightarrow> es | Some e \<Rightarrow> [e])
            @ (case err of Multi es \<Rightarrow> es | e \<Rightarrow> [e]))"

fun kindString :: "kind \<Rightarrow> string" where
  "kindString KInvalid = ''invalid''"
| "kindString KBool = ''bool''"
| "kindString KInt = ''int''"
| "kindString KString = ''string''"
| "kindString KSlice = ''slice''"
| "kindString KPtr = ''ptr''"
| "kindString KInterface = ''interface''"
| "kindString KStruct = ''struct''"

fun showNat :: "nat \<Rightarrow> string" where
  "showNat n =
     (if n < 10 then [char_of (48 + n)]
      else showNat (n div 10) @ [char_of (48 + n mod 10)])"

text \<open>
  The text of an error (\<^verbatim>\<open>Error()\<close>); \<open>fmtv\<close> is how \<^verbatim>\<open>fmt\<close> prints a value with
  \<^verbatim>\<open>%v\<close>. The aggregate lists every message after a header.
\<close>

fun Error :: "(iface \<Rightarrow> string) \<Rightarrow> error \<Rightarrow> string" where
  "Error fmtv (RootError s k) =
     ''structor: '' @ fmtv s @ '' must be a struct or a pointer to struct, actually: ''
       @ kindString k"
| "Error fmtv (Wrapped longName detail) = ''structor: <<'' @ longName @ ''>>: '' @ detail"
| "Error fmtv (Raised m) = m"
| "Error fmtv (Multi es) =
     showNat (length es) @ '' error(s) occurred:'' @ [CHR 0x0A]
       @ concat (map (\<lambda>e. [CHR 0x0A] @ ''* '' @ Error fmtv e) es)"


subsection \<open>Introspection\<close>

text \<open>
  \<^verbatim>\<open>structIntrospect\<close>: \<^verbatim>\<open>v.Type()\<close> panics on the zero Value, which is what
  \<^verbatim>\<open>reflect.Indirect(reflect.ValueOf(s))\<close> is for a nil \<open>s\<close> and for a nil pointer.
\<close>

definition structIntrospect :: "heap \<Rightarrow> iface \<Rightarrow> (rvalue \<times> gtype \<times> error option) res option" where
  "structIntrospect h s =
     (case Indirect h (ValueOf s) of
        None \<Rightarrow> None
      | Some RInvalid \<Rightarrow>
          Some (Panic (PError ''reflect: call of reflect.Value.Type on zero Value''))
      | Some (RV t src ro) \<Rightarrow>
          (if kindOf t \<noteq> KStruct
           then Some (Ret (RV t src ro, t, Some (RootError s (kindOf t))))
           else Some (Ret (RV t src ro, t, None))))"

record fieldDescr =
  f_name :: string
  f_expr :: string
  f_interpreter :: "interp option"
  f_value :: rvalue
  f_typ :: gtype
  f_tags :: "(string \<times> string) list"
  f_settable :: bool

text \<open>\<^verbatim>\<open>delete(tags, k)\<close> on the list of entries.\<close>

definition delete :: "string \<Rightarrow> (string \<times> string) list \<Rightarrow> (string \<times> string) list" where
  "delete k tags = filter (\<lambda>e. fst e \<noteq> k) tags"

definition settableOf :: "rvalue \<Rightarrow> bool" where
  "settableOf v =
     (CanSet v \<or> (CanAddr v \<and> (case Addr v of Ret a \<Rightarrow> CanSet a | Panic _ \<Rightarrow> False)))"

text \<open>
  The \<^verbatim>\<open>range\<close> loop of \<^verbatim>\<open>fieldIntrospect\<close>: the first entry, in the order of
  iteration, whose key is registered, with the interpreter registered for it.
\<close>

fun rangeTags :: "Interpreters \<Rightarrow> (string \<times> string) list \<Rightarrow> (string \<times> string \<times> interp option) option" where
  "rangeTags is [] = None"
| "rangeTags is (e # rest) =
     (case is (fst e) of
        Some intr \<Rightarrow> Some (fst e, snd e, intr)
      | None \<Rightarrow> rangeTags is rest)"

text \<open>\<^verbatim>\<open>fieldIntrospect\<close> returns the descriptor and the scanner's error.\<close>

definition fieldIntrospect ::
  "evaluator \<Rightarrow> heap \<Rightarrow> rvalue \<Rightarrow> gtype \<Rightarrow> nat \<Rightarrow> (fieldDescr \<times> string option) option" where
  "fieldIntrospect ev h val typ i =
     (case typ of
        TStruct n ds \<Rightarrow>
          (if i < length ds
           then (case Field val i of
                   None \<Rightarrow> None
                 | Some fv \<Rightarrow>
                     (case Indirect h fv of
                        None \<Rightarrow> None
                      | Some v \<Rightarrow>
                          (let f = ds ! i;
                               scanned = scanner ev (fd_tag f);
                               tags = (case scanned of Inl _ \<Rightarrow> [] | Inr m \<Rightarrow> m);
                               res = \<lparr>f_name = fd_name f, f_expr = [], f_interpreter = None,
                                      f_value = v, f_typ = fd_type f, f_tags = tags,
                                      f_settable = False\<rparr>
                           in (case scanned of
                                 Inl err \<Rightarrow> Some (res, Some err)
                               | Inr _ \<Rightarrow>
                                   (let res = res\<lparr>f_settable := settableOf v\<rparr>
                                    in (case rangeTags (interpreters ev) tags of
                                          Some (k, t, intr) \<Rightarrow>
                                            Some (res\<lparr>f_tags := delete k tags, f_expr := t,
                                                       f_interpreter := intr\<rparr>,
                                                  None)
                                        | None \<Rightarrow>
                                            (case interpreters ev WholeTag of
                                               Some intr \<Rightarrow>
                                                 Some (res\<lparr>f_tags := delete WholeTag tags,
                                                            f_expr := fd_tag f,
                                                            f_interpreter := intr\<rparr>,
                                                       None)
                                             | None \<Rightarrow> Some (res, None))))))))
           else None)
      | _ \<Rightarrow> None)"

subsection \<open>Coercion and assignment\<close>

text \<open>
  The deferred function of \<^verbatim>\<open>reflectSet\<close> turns a panic into the returned error: a
  panic value that is an error as it is, any other as \<^verbatim>\<open>structor: \<close> and its text.
\<close>

definition recovered :: "rpanic \<Rightarrow> string" where
  "recovered r = (case r of PError m \<Rightarrow> m | PString m \<Rightarrow> ''structor: '' @ m)"

definition reflectSet :: "heap \<Rightarrow> rvalue \<Rightarrow> gtype \<Rightarrow> iface \<Rightarrow> (string option \<times> heap) option" where
  "reflectSet h v vt nv =
     (case nv of
        None \<Rightarrow>
          (if IsValid v
           then (case Set h v (RV vt (Inline (Zero vt)) False) of
                   None \<Rightarrow> None
                 | Some (Panic r) \<Rightarrow> Some (Some (recovered r), h)
                 | Some (Ret h') \<Rightarrow> Some (None, h'))
           else Some (None, h))
      | Some (nt, nd) \<Rightarrow>
          (let vnv = ValueOf nv
           in if \<not> ConvertibleTo nt vt \<and> Kind v = KStruct then Some (None, h)
              else (case Convert h vnv vt of
                      None \<Rightarrow> None
                    | Some (Panic r) \<Rightarrow> Some (Some (recovered r), h)
                    | Some (Ret c) \<Rightarrow>
                        (case Set h v c of
                           None \<Rightarrow> None
                         | Some (Panic r) \<Rightarrow> Some (Some (recovered r), h)
                         | Some (Ret h') \<Rightarrow> Some (None, h')))))"

definition byRef :: "heap \<Rightarrow> rvalue \<Rightarrow> iface res option" where
  "byRef h v =
     (if CanAddr v
      then (case Addr v of Panic r \<Rightarrow> Some (Panic r) | Ret a \<Rightarrow> Interface h a)
      else Interface h v)"

definition evalExpr :: "evaluator \<Rightarrow> string \<Rightarrow> string \<Rightarrow> ctx \<Rightarrow> heap \<Rightarrow> ((string + iface) \<times> heap) res" where
  "evalExpr ev intrprName expr c h =
     (case interpreters ev intrprName of
        None \<Rightarrow> Ret (Inl (''unknown interpreter: '' @ intrprName), h)
      | Some None \<Rightarrow>
          Panic (PError ''runtime error: invalid memory address or nil pointer dereference'')
      | Some (Some intrpr) \<Rightarrow> Ret (intrpr expr c h))"


subsection \<open>The walk\<close>

text \<open>
  Besides what the Go code returns (the error) and changes (memory), the model of the
  walk returns a log with one entry per field visited: the field's long name, the call
  of \<^verbatim>\<open>Execute\<close> made for it (expression, context, the interpreter called and the
  memory it was called in), the result the walk took from the interpreter, the
  error the field's own processing ended with, and the log of the walk of the nested
  struct when the walk descended. The log is not part of the program; it is what the
  theorems about calls and failures speak about.
\<close>

datatype ftrace = FT (ft_long: string) (ft_call: "(string \<times> ctx \<times> interp \<times> heap) option") (ft_result: iface)
  (ft_err: "error option") (ft_nested: "ftrace list option")

definition nilDeref :: rpanic where
  "nilDeref = PError ''runtime error: invalid memory address or nil pointer dereference''"

text \<open>
  Lines 147 to 170 of \<^verbatim>\<open>eval\<close>, entered when the expression is not empty or
  \<^verbatim>\<open>EvalEmptyTags\<close> is set: \<open>Inl\<close> is the closure's early return of an error,
  \<open>Inr\<close> the interpreter's result with which the closure goes on.
\<close>

definition evalBlock ::
  "evaluator \<Rightarrow> iface \<Rightarrow> iface \<Rightarrow> iface \<Rightarrow> fieldDescr \<Rightarrow> string \<Rightarrow> heap
   \<Rightarrow> ((error \<times> heap \<times> (string \<times> ctx \<times> interp \<times> heap) \<times> iface)
        + (iface \<times> heap \<times> (string \<times> ctx \<times> interp \<times> heap))) res option" where
  "evalBlock ev s extra subctx f longName h =
     (case (if IsValid (f_value f) then Interface h (f_value f) else Some (Ret None)) of
        None \<Rightarrow> None
      | Some (Panic r) \<Rightarrow> Some (Panic r)
      | Some (Ret cv) \<Rightarrow>
          (let c = \<lparr>Name = f_name f, LongName = longName, Tags = f_tags f, Struct = s,
                    Extra = extra, Sub = subctx, Val = cv\<rparr>
           in (case f_interpreter f of
                 None \<Rightarrow> Some (Panic nilDeref)
               | Some intr \<Rightarrow>
                   (case intr (f_expr f) c h of
                      (Inl err, h1) \<Rightarrow>
                        Some (Ret (Inl (Raised err, h1, (f_expr f, c, intr, h), None)))
                    | (Inr result, h1) \<Rightarrow>
                        (if \<not> NonMutating (options ev) \<and> f_settable f
                         then (case reflectSet h1 (f_value f) (f_typ f) result of
                                 None \<Rightarrow> None
                               | Some (Some err, h2) \<Rightarrow>
                                   Some (Ret (Inl (Wrapped longName err, h2, (f_expr f, c, intr, h),
                                                  result)))
                               | Some (None, h2) \<Rightarrow>
                                   Some (Ret (Inr (result, h2, (f_expr f, c, intr, h)))))
                         else Some (Ret (Inr (result, h1, (f_expr f, c, intr, h)))))))))"

text \<open>
  Lines 171 to 181: the value in which the walk may descend, \<open>None\<close> inside when
  the kind is not struct.
\<close>

definition nestedTarget :: "heap \<Rightarrow> rvalue \<Rightarrow> iface option res option" where
  "nestedTarget h fv =
     (case (if Kind fv = KInterface
            then (case Elem h fv of
                    None \<Rightarrow> None
                  | Some (Panic r) \<Rightarrow> Some (Panic r)
                  | Some (Ret v) \<Rightarrow>
                      (case Indirect h v of None \<Rightarrow> None | Some w \<Rightarrow> Some (Ret (v, Kind w))))
            else Some (Ret (fv, Kind fv))) of
        None \<Rightarrow> None
      | Some (Panic r) \<Rightarrow> Some (Panic r)
      | Some (Ret (v, k)) \<Rightarrow>
          (if k = KStruct
           then (case byRef h v of
                   None \<Rightarrow> None
                 | Some (Panic r) \<Rightarrow> Some (Panic r)
                 | Some (Ret r) \<Rightarrow> Some (Ret (Some r)))
           else Some (Ret None)))"


text \<open>\<^verbatim>\<open>%T\<close> of an interface value.\<close>

definition fmtT :: "iface \<Rightarrow> string" where
  "fmtT i = (case i of None \<Rightarrow> ''<nil>'' | Some (t, d) \<Rightarrow> typeString t)"

definition NumField :: "gtype \<Rightarrow> nat" where
  "NumField t = (case t of TStruct n ds \<Rightarrow> length ds | _ \<Rightarrow> 0)"

text \<open>
  The tail of the closure: descend into the nested struct, if there is one, with the
  interpreter's result as \<open>subctx\<close>. \<open>rec\<close> is the recursive call
  \<^verbatim>\<open>ev.eval(s, extra, _, _)\<close>.
\<close>

definition evalTail ::
  "(iface \<Rightarrow> iface \<Rightarrow> heap \<Rightarrow> (error option \<times> heap \<times> ftrace list) res option)
   \<Rightarrow> fieldDescr \<Rightarrow> string \<Rightarrow> (string \<times> ctx \<times> interp \<times> heap) option \<Rightarrow> iface \<Rightarrow> heap
   \<Rightarrow> (error option \<times> heap \<times> ftrace) res option" where
  "evalTail rec f longName call result h =
     (case nestedTarget h (f_value f) of
        None \<Rightarrow> None
      | Some (Panic r) \<Rightarrow> Some (Panic r)
      | Some (Ret None) \<Rightarrow> Some (Ret (None, h, FT longName call result None None))
      | Some (Ret (Some sub)) \<Rightarrow>
          (case rec sub result h of
             None \<Rightarrow> None
           | Some (Panic r) \<Rightarrow> Some (Panic r)
           | Some (Ret (e, h', ts)) \<Rightarrow>
               Some (Ret (e, h', FT longName call result None (Some ts)))))"

text \<open>The closure that \<^verbatim>\<open>eval\<close> runs for field \<open>i\<close>.\<close>

definition evalField ::
  "(iface \<Rightarrow> iface \<Rightarrow> heap \<Rightarrow> (error option \<times> heap \<times> ftrace list) res option)
   \<Rightarrow> evaluator \<Rightarrow> iface \<Rightarrow> iface \<Rightarrow> iface \<Rightarrow> iface \<Rightarrow> rvalue \<Rightarrow> gtype \<Rightarrow> nat \<Rightarrow> heap
   \<Rightarrow> (error option \<times> heap \<times> ftrace) res option" where
  "evalField rec ev s extra subctx cur val typ i h =
     (case fieldIntrospect ev h val typ i of
        None \<Rightarrow> None
      | Some (f, err) \<Rightarrow>
          (let longName = fmtT cur @ ''.'' @ f_name f
           in (case err of
                 Some e \<Rightarrow>
                   Some (Ret (Some (Wrapped longName e), h,
                              FT longName None None (Some (Wrapped longName e)) None))
               | None \<Rightarrow>
                   (if f_expr f \<noteq> [] \<or> EvalEmptyTags (options ev)
                    then (case evalBlock ev s extra subctx f longName h of
                            None \<Rightarrow> None
                          | Some (Panic r) \<Rightarrow> Some (Panic r)
                          | Some (Ret (Inl (e, h1, call, result))) \<Rightarrow>
                              Some (Ret (Some e, h1, FT longName (Some call) result (Some e) None))
                          | Some (Ret (Inr (result, h1, call))) \<Rightarrow>
                              evalTail rec f longName (Some call) result h1)
                    else evalTail rec f longName None None h))))"

text \<open>The loop over the fields, with \<open>merr\<close> as the Go code accumulates it.\<close>

fun evalLoop ::
  "(nat \<Rightarrow> heap \<Rightarrow> (error option \<times> heap \<times> ftrace) res option)
   \<Rightarrow> nat list \<Rightarrow> error option \<Rightarrow> heap \<Rightarrow> (error option \<times> heap \<times> ftrace list) res option" where
  "evalLoop step [] merr h = Some (Ret (merr, h, []))"
| "evalLoop step (i # is) merr h =
     (case step i h of
        None \<Rightarrow> None
      | Some (Panic r) \<Rightarrow> Some (Panic r)
      | Some (Ret (err, h1, t)) \<Rightarrow>
          (case evalLoop step is (case err of None \<Rightarrow> merr | Some e \<Rightarrow> Some (Append merr e)) h1 of
             None \<Rightarrow> None
           | Some (Panic r) \<Rightarrow> Some (Panic r)
           | Some (Ret (m, h2, ts)) \<Rightarrow> Some (Ret (m, h2, t # ts))))"

text \<open>
  \<^verbatim>\<open>eval\<close>. The recursion of the Go code is not bounded (an interpreter may keep
  returning structs to descend into, and pointers may form a cycle), so the model
  takes the depth it may nest as fuel; \<open>None\<close> says that the fuel did not suffice.
\<close>

primrec eval ::
  "evaluator \<Rightarrow> nat \<Rightarrow> iface \<Rightarrow> iface \<Rightarrow> iface \<Rightarrow> iface \<Rightarrow> heap
   \<Rightarrow> (error option \<times> heap \<times> ftrace list) res option" where
  "eval ev 0 s extra substruct subctx h = None"
| "eval ev (Suc n) s extra substruct subctx h =
     (let cur = (if substruct \<noteq> None then substruct else s)
      in (case structIntrospect h cur of
            None \<Rightarrow> None
          | Some (Panic r) \<Rightarrow> Some (Panic r)
          | Some (Ret (val, typ, Some err)) \<Rightarrow> Some (Ret (Some err, h, []))
          | Some (Ret (val, typ, None)) \<Rightarrow>
              evalLoop (evalField (\<lambda>sub res h'. eval ev n s extra sub res h')
                          ev s extra subctx cur val typ)
                [0..<NumField typ] None h))"

definition Eval ::
  "evaluator \<Rightarrow> nat \<Rightarrow> iface \<Rightarrow> iface \<Rightarrow> heap \<Rightarrow> (error option \<times> heap \<times> ftrace list) res option" where
  "Eval ev fuel s extra h = eval ev fuel s extra None None h"


subsection \<open>Reading the log\<close>


text \<open>
  \<open>stops_on_failure t\<close>: in the log entry \<open>t\<close> and in every entry nested in it, a
  field whose own processing ended with an error has no nested walk.
\<close>

fun stops_on_failure :: "ftrace \<Rightarrow> bool" where
  "stops_on_failure (FT ln call res err nested) =
     ((err \<noteq> None \<longrightarrow> nested = None)
      \<and> (case nested of None \<Rightarrow> True | Some ts \<Rightarrow> (\<forall>t\<in>set ts. stops_on_failure t)))"

section \<open>Sample records, scanner and interpreters\<close>

text \<open>
  Inputs to run the model on: the character counting interpreter \<^verbatim>\<open>cc\<close> of
  \<^verbatim>\<open>structor_test.go\<close>, a scanner given by the table of the tags that occur, an
  evaluator with \<^verbatim>\<open>cc\<close> registered, and the memory of a record with one int field
  at address 0.
\<close>

definition cc :: interp where
  "cc expr c h = (Inr (Some (TInt, VInt (int (length expr)))), h)"

definition sampleScanner :: "string \<Rightarrow> string + (string \<times> string) list" where
  "sampleScanner tag =
     (if tag = ''cc:something'' then Inr [(''cc'', ''something'')]
      else if tag = ''x:1 cc:something'' then Inr [(''x'', ''1''), (''cc'', ''something'')]
      else if tag = ''malformed'' then Inl ''bad syntax for struct tag pair''
      else Inr [])"

definition noOptions :: Options where
  "noOptions = \<lparr>NonMutating = False, EvalEmptyTags = False\<rparr>"

definition evCC :: evaluator where
  "evCC = \<lparr>scanner = sampleScanner, interpreters = [''cc'' \<mapsto> Some cc], options = noOptions\<rparr>"

definition heap0 :: heap where
  "heap0 = [0 \<mapsto> VStruct [VInt 0]]"

text \<open>
  A scanner whose tag map has an entry under the empty key, visited first, and an
  entry under the key \<^verbatim>\<open>n\<close>; an interpreter that returns 42; an evaluator with
  \<^verbatim>\<open>cc\<close> registered under \<^verbatim>\<open>WholeTag\<close> and the other under \<^verbatim>\<open>n\<close>.
\<close>

definition emptyKeyScanner :: "string \<Rightarrow> string + (string \<times> string) list" where
  "emptyKeyScanner tag = Inr [([], ''parsed''), (''n'', ''x'')]"

definition const42 :: interp where
  "const42 expr c h = (Inr (Some (TInt, VInt 42)), h)"

definition evEmptyKey :: evaluator where
  "evEmptyKey = \<lparr>scanner = emptyKeyScanner,
                  interpreters = [WholeTag \<mapsto> Some cc, ''n'' \<mapsto> Some const42],
                  options = noOptions\<rparr>"

definition rawStruct :: gtype where
  "rawStruct = TStruct ''structor_test.theStruct'' [(''A'', ''raw tag text'', True, TInt)]"

text \<open>
  Further interpreters (one that returns nil, one that fails), a scanner by table with
  a second scanner that yields the same tag maps with the two entries of one of them
  in the other order, a registry of all interpreters, and records: one with a pointer
  field, one whose field has two registered keys, one with a failing and a succeeding
  field.
\<close>

definition nilInterp :: interp where
  "nilInterp expr c h = (Inr None, h)"

definition boom :: interp where
  "boom expr c h = (Inl ''boom'', h)"

definition tableScanner :: "string \<Rightarrow> string + (string \<times> string) list" where
  "tableScanner tag =
     (if tag = ''nil:x'' then Inr [(''nil'', ''x'')]
      else if tag = ''boom:x'' then Inr [(''boom'', ''x'')]
      else if tag = ''poke:x'' then Inr [(''poke'', ''x'')]
      else if tag = ''cc:something'' then Inr [(''cc'', ''something'')]
      else if tag = ''cc:something n:x'' then Inr [(''cc'', ''something''), (''n'', ''x'')]
      else if tag = ''malformed'' then Inl ''bad syntax for struct tag pair''
      else Inr [])"

definition otherOrderScanner :: "string \<Rightarrow> string + (string \<times> string) list" where
  "otherOrderScanner tag =
     (if tag = ''cc:something n:x'' then Inr [(''n'', ''x''), (''cc'', ''something'')]
      else tableScanner tag)"

definition registry :: Interpreters where
  "registry = [''cc'' \<mapsto> Some cc, ''n'' \<mapsto> Some const42, ''nil'' \<mapsto> Some nilInterp,
               ''boom'' \<mapsto> Some boom]"

definition evTable :: evaluator where
  "evTable = \<lparr>scanner = tableScanner, interpreters = registry, options = noOptions\<rparr>"

definition evOtherOrder :: evaluator where
  "evOtherOrder = \<lparr>scanner = otherOrderScanner, interpreters = registry, options = noOptions\<rparr>"

definition ptrStruct :: gtype where
  "ptrStruct = TStruct ''structor_test.ptrStruct'' [(''P'', ''nil:x'', True, TPtr TInt)]"

definition heapP :: heap where
  "heapP = [0 \<mapsto> VStruct [VPtr (Some (1, []))], 1 \<mapsto> VInt 5]"

definition twoKeys :: gtype where
  "twoKeys = TStruct ''structor_test.twoKeys'' [(''A'', ''cc:something n:x'', True, TInt)]"

definition errStruct :: gtype where
  "errStruct = TStruct ''structor_test.errStruct''
     [(''A'', ''boom:x'', True, TInt), (''B'', ''cc:something'', True, TInt)]"

definition heapAB :: heap where
  "heapAB = [0 \<mapsto> VStruct [VInt 0, VInt 0]]"

text \<open>
  A record with a nested struct: the field \<^verbatim>\<open>K\<close> is a struct with one field
  \<^verbatim>\<open>L\<close>; both carry an expression for \<^verbatim>\<open>cc\<close>. In a second record the expression
  of \<^verbatim>\<open>K\<close> is for the failing interpreter.
\<close>

definition innerStruct :: gtype where
  "innerStruct = TStruct ''structor_test.inner'' [(''L'', ''cc:something'', True, TInt)]"

definition outerStruct :: gtype where
  "outerStruct = TStruct ''structor_test.outer'' [(''K'', ''cc:something'', True, innerStruct)]"

definition outerFail :: gtype where
  "outerFail = TStruct ''structor_test.outerFail'' [(''K'', ''boom:x'', True, innerStruct)]"

definition heapK :: heap where
  "heapK = [0 \<mapsto> VStruct [VStruct [VInt 0]]]"

text \<open>
  An interpreter that, as a side effect, writes 7 into the field of the record at
  address 0 and returns nil; evaluators in non-mutating mode, one with this
  interpreter and one with \<^verbatim>\<open>cc\<close>.
\<close>

definition poke :: interp where
  "poke expr c h = (Inr None, h(0 \<mapsto> VStruct [VInt 7]))"

definition nonMutating :: Options where
  "nonMutating = \<lparr>NonMutating = True, EvalEmptyTags = False\<rparr>"

definition evPoke :: evaluator where
  "evPoke = \<lparr>scanner = tableScanner, interpreters = [''poke'' \<mapsto> Some poke],
              options = nonMutating\<rparr>"

definition evNonMut :: evaluator where
  "evNonMut = \<lparr>scanner = tableScanner, interpreters = [''cc'' \<mapsto> Some cc],
                options = nonMutating\<rparr>"

definition pokeStruct :: gtype where
  "pokeStruct = TStruct ''structor_test.theStruct'' [(''A'', ''poke:x'', True, TInt)]"

text \<open>
  An evaluator with \<^verbatim>\<open>EvalEmptyTags\<close> set, a record whose field has no tag, an
  evaluator whose registry holds a nil interpreter under \<^verbatim>\<open>cc\<close>, and a record whose
  field has the tag for \<^verbatim>\<open>cc\<close> only.
\<close>

definition evEmptyTags :: evaluator where
  "evEmptyTags = \<lparr>scanner = tableScanner, interpreters = [''cc'' \<mapsto> Some cc],
                   options = \<lparr>NonMutating = False, EvalEmptyTags = True\<rparr>\<rparr>"

definition evNilReg :: evaluator where
  "evNilReg = \<lparr>scanner = tableScanner, interpreters = [''cc'' \<mapsto> None], options = noOptions\<rparr>"

definition plainStruct :: gtype where
  "plainStruct = TStruct ''structor_test.plain'' [(''A'', [], True, TInt)]"

definition ccStruct :: gtype where
  "ccStruct = TStruct ''structor_test.theStruct'' [(''A'', ''cc:something'', True, TInt)]"

section \<open>Properties\<close>

subsection \<open>Interpreter dispatch\<close>

lemma rangeTags_Some:
  "rangeTags is tags = Some (k, t, intr) \<Longrightarrow>
     \<exists>pre post. tags = pre @ (k, t) # post \<and> (\<forall>e\<in>set pre. is (fst e) = None) \<and> is k = Some intr"
proof (induction tags)
  case Nil
  then show ?case by simp
next
  case (Cons e rest)
  show ?case
  proof (cases "is (fst e)")
    case None
    with Cons.prems have "rangeTags is rest = Some (k, t, intr)" by simp
    from Cons.IH [OF this] obtain pre post where
      "rest = pre @ (k, t) # post" "\<forall>e\<in>set pre. is (fst e) = None" "is k = Some intr"
      by blast
    with None have "e # rest = (e # pre) @ (k, t) # post
        \<and> (\<forall>x\<in>set (e # pre). is (fst x) = None) \<and> is k = Some intr"
      by simp
    then show ?thesis by blast
  next
    case (Some a)
    with Cons.prems have "e = (k, t)" "a = intr" by (auto simp: prod_eq_iff)
    with Some have "e # rest = [] @ (k, t) # rest
        \<and> (\<forall>x\<in>set []. is (fst x) = None) \<and> is k = Some intr"
      by simp
    then show ?thesis by blast
  qed
qed

lemma rangeTags_None:
  "(rangeTags is tags = None) = (\<forall>e\<in>set tags. is (fst e) = None)"
  by (induction tags) (auto split: option.splits)

lemma delete_absent: "k \<notin> fst ` set (delete k tags)"
  by (auto simp: delete_def)

lemma delete_noop: "k \<notin> fst ` set tags \<Longrightarrow> delete k tags = tags"
  by (induction tags) (auto simp: delete_def)

lemma fieldIntrospect_scanned:
  assumes "fieldIntrospect ev h val (TStruct n ds) i = Some (f, err)"
    and "scanner ev (fd_tag (ds ! i)) = Inr tags"
  shows "err = None \<and>
     (case rangeTags (interpreters ev) tags of
        Some (k, t, intr) \<Rightarrow> f_interpreter f = intr \<and> f_expr f = t \<and> f_tags f = delete k tags
      | None \<Rightarrow>
         (case interpreters ev WholeTag of
            Some intr \<Rightarrow> f_interpreter f = intr \<and> f_expr f = fd_tag (ds ! i)
                          \<and> f_tags f = delete WholeTag tags
          | None \<Rightarrow> f_interpreter f = None \<and> f_expr f = [] \<and> f_tags f = tags))"
  using assms
  by (auto simp: fieldIntrospect_def Let_def split: if_splits option.splits)

lemma evalBlock_Inr:
  assumes "evalBlock ev s extra subctx f ln h = Some (Ret (Inr (res, h1, (x, c, ip, hb))))"
  shows "x = f_expr f \<and> f_interpreter f = Some ip \<and> hb = h
     \<and> c = \<lparr>Name = f_name f, LongName = ln, Tags = f_tags f, Struct = s, Extra = extra,
             Sub = subctx, Val = Val c\<rparr>
     \<and> fst (ip x c hb) = Inr res
     \<and> (if \<not> NonMutating (options ev) \<and> f_settable f
         then reflectSet (snd (ip x c hb)) (f_value f) (f_typ f) res = Some (None, h1)
         else h1 = snd (ip x c hb))"
  using assms
  by (auto simp: evalBlock_def Let_def
           split: if_splits option.splits res.splits sum.splits prod.splits)

lemma evalBlock_Inl:
  assumes "evalBlock ev s extra subctx f ln h = Some (Ret (Inl (e, h1, (x, c, ip, hb), res)))"
  shows "x = f_expr f \<and> f_interpreter f = Some ip \<and> hb = h
     \<and> c = \<lparr>Name = f_name f, LongName = ln, Tags = f_tags f, Struct = s, Extra = extra,
             Sub = subctx, Val = Val c\<rparr>
     \<and> ((\<exists>m. fst (ip x c hb) = Inl m \<and> e = Raised m \<and> res = None \<and> h1 = snd (ip x c hb))
        \<or> (\<exists>m. fst (ip x c hb) = Inr res \<and> \<not> NonMutating (options ev) \<and> f_settable f
              \<and> reflectSet (snd (ip x c hb)) (f_value f) (f_typ f) res = Some (Some m, h1)
              \<and> e = Wrapped ln m))"
  using assms
  by (auto simp: evalBlock_def Let_def
           split: if_splits option.splits res.splits sum.splits prod.splits)

text \<open>
  What \<^verbatim>\<open>fieldIntrospect\<close> selects for a field whose tag the scanner accepted: the
  interpreter registered for the first key, in the order of iteration, that is
  registered, with that entry's value as the expression and the key deleted; when no
  key of the tag map is registered, the interpreter registered under \<^verbatim>\<open>WholeTag\<close>, if
  any, with the whole raw tag.
\<close>

lemma dispatch_first_registered:
  assumes fi: "fieldIntrospect ev h val (TStruct n ds) i = Some (f, err)"
    and sc: "scanner ev (fd_tag (ds ! i)) = Inr tags"
  shows "err = None \<and>
     ((\<exists>e\<in>set tags. interpreters ev (fst e) \<noteq> None) \<longrightarrow>
          (\<exists>k t pre post. tags = pre @ (k, t) # post
             \<and> (\<forall>e\<in>set pre. interpreters ev (fst e) = None)
             \<and> interpreters ev k = Some (f_interpreter f)
             \<and> f_expr f = t \<and> f_tags f = delete k tags \<and> k \<notin> fst ` set (f_tags f))) \<and>
     ((\<forall>e\<in>set tags. interpreters ev (fst e) = None) \<longrightarrow>
          (case interpreters ev WholeTag of
             Some intr \<Rightarrow> f_interpreter f = intr \<and> f_expr f = fd_tag (ds ! i) \<and> f_tags f = tags
           | None \<Rightarrow> f_interpreter f = None \<and> f_expr f = [] \<and> f_tags f = tags)) \<and>
     (\<forall>s extra subctx ln h0 e h1 x c ip hb res.
         evalBlock ev s extra subctx f ln h0 = Some (Ret (Inl (e, h1, (x, c, ip, hb), res)))
         \<or> evalBlock ev s extra subctx f ln h0 = Some (Ret (Inr (res, h1, (x, c, ip, hb))))
         \<longrightarrow> x = f_expr f \<and> Tags c = f_tags f \<and> f_interpreter f = Some ip)"
proof -
  note fs = fieldIntrospect_scanned [OF fi sc]
  have A: "err = None" using fs by simp
  have B: "(\<exists>e\<in>set tags. interpreters ev (fst e) \<noteq> None) \<longrightarrow>
          (\<exists>k t pre post. tags = pre @ (k, t) # post
             \<and> (\<forall>e\<in>set pre. interpreters ev (fst e) = None)
             \<and> interpreters ev k = Some (f_interpreter f)
             \<and> f_expr f = t \<and> f_tags f = delete k tags \<and> k \<notin> fst ` set (f_tags f))"
  proof
    assume "\<exists>e\<in>set tags. interpreters ev (fst e) \<noteq> None"
    then have "rangeTags (interpreters ev) tags \<noteq> None"
      by (simp add: rangeTags_None)
    then obtain k t intr where rt: "rangeTags (interpreters ev) tags = Some (k, t, intr)"
      by (cases "rangeTags (interpreters ev) tags") auto
    from rangeTags_Some [OF rt] obtain pre post where
      p: "tags = pre @ (k, t) # post" "\<forall>e\<in>set pre. interpreters ev (fst e) = None"
         "interpreters ev k = Some intr" by blast
    from fs rt have "f_interpreter f = intr" "f_expr f = t" "f_tags f = delete k tags"
      by simp_all
    with p delete_absent [of k tags] show "\<exists>k t pre post. tags = pre @ (k, t) # post
             \<and> (\<forall>e\<in>set pre. interpreters ev (fst e) = None)
             \<and> interpreters ev k = Some (f_interpreter f)
             \<and> f_expr f = t \<and> f_tags f = delete k tags \<and> k \<notin> fst ` set (f_tags f)"
      by metis
  qed
  have C: "(\<forall>e\<in>set tags. interpreters ev (fst e) = None) \<longrightarrow>
          (case interpreters ev WholeTag of
             Some intr \<Rightarrow> f_interpreter f = intr \<and> f_expr f = fd_tag (ds ! i) \<and> f_tags f = tags
           | None \<Rightarrow> f_interpreter f = None \<and> f_expr f = [] \<and> f_tags f = tags)"
  proof
    assume a: "\<forall>e\<in>set tags. interpreters ev (fst e) = None"
    then have rt: "rangeTags (interpreters ev) tags = None"
      by (simp add: rangeTags_None)
    show "case interpreters ev WholeTag of
             Some intr \<Rightarrow> f_interpreter f = intr \<and> f_expr f = fd_tag (ds ! i) \<and> f_tags f = tags
           | None \<Rightarrow> f_interpreter f = None \<and> f_expr f = [] \<and> f_tags f = tags"
    proof (cases "interpreters ev WholeTag")
      case None
      with fs rt show ?thesis by simp
    next
      case (Some intr)
      with a have "WholeTag \<notin> fst ` set tags" by auto
      then have "delete WholeTag tags = tags" by (rule delete_noop)
      with fs rt Some show ?thesis by simp
    qed
  qed
  have D: "\<forall>s extra subctx ln h0 e h1 x c ip hb res.
         evalBlock ev s extra subctx f ln h0 = Some (Ret (Inl (e, h1, (x, c, ip, hb), res)))
         \<or> evalBlock ev s extra subctx f ln h0 = Some (Ret (Inr (res, h1, (x, c, ip, hb))))
         \<longrightarrow> x = f_expr f \<and> Tags c = f_tags f \<and> f_interpreter f = Some ip"
  proof (intro allI impI)
    fix s extra subctx ln h0 e h1 x c ip hb res
    assume "evalBlock ev s extra subctx f ln h0 = Some (Ret (Inl (e, h1, (x, c, ip, hb), res)))
         \<or> evalBlock ev s extra subctx f ln h0 = Some (Ret (Inr (res, h1, (x, c, ip, hb))))"
    then have "x = f_expr f \<and> f_interpreter f = Some ip
        \<and> c = \<lparr>Name = f_name f, LongName = ln, Tags = f_tags f, Struct = s, Extra = extra,
                Sub = subctx, Val = Val c\<rparr>"
    proof
      assume "evalBlock ev s extra subctx f ln h0 = Some (Ret (Inl (e, h1, (x, c, ip, hb), res)))"
      from evalBlock_Inl [OF this] show ?thesis by simp
    next
      assume "evalBlock ev s extra subctx f ln h0 = Some (Ret (Inr (res, h1, (x, c, ip, hb))))"
      from evalBlock_Inr [OF this] show ?thesis by simp
    qed
    then have "x = f_expr f \<and> f_interpreter f = Some ip
        \<and> Tags c = Tags \<lparr>Name = f_name f, LongName = ln, Tags = f_tags f, Struct = s,
                          Extra = extra, Sub = subctx, Val = Val c\<rparr>"
      by metis
    then show "x = f_expr f \<and> Tags c = f_tags f \<and> f_interpreter f = Some ip"
      by simp
  qed
  from A B C D show ?thesis by blast
qed


text \<open>The definitions that running the walk on a concrete input unfolds.\<close>

lemmas run_defs = Eval_def Let_def structIntrospect_def Indirect_def ValueOf_def Elem_def
  rload_def hread_def hwrite_def NumField_def evalField_def fieldIntrospect_def Field_def
  fd_tag_def fd_name_def fd_type_def fd_exported_def settableOf_def Addr_def delete_def
  WholeTag_def fmtT_def evalBlock_def Interface_def reflectSet_def ConvertibleTo_def
  convertOp_def Convert_def Set_def evalTail_def nestedTarget_def byRef_def recovered_def
  Append_def upt_rec

text \<open>
  C1. The claim says that the interpreter registered under \<^verbatim>\<open>WholeTag\<close> is selected
  only when no named key matched, and then receives the whole raw tag, never a parsed
  value; the comments at \<^verbatim>\<open>WholeTag\<close> say the same. The code departs from it when the
  scanner's tag map has an entry under the empty key: the \<^verbatim>\<open>range\<close> loop takes that
  entry as a match of the name \<^verbatim>\<open>WholeTag\<close>. Here the tag is \<^verbatim>\<open>raw tag text\<close>, the tag
  map has the empty key (visited first) and the key \<^verbatim>\<open>n\<close>, both registered. The walk
  calls the interpreter of \<^verbatim>\<open>WholeTag\<close>, ahead of the one of \<^verbatim>\<open>n\<close>, with the parsed
  value \<^verbatim>\<open>parsed\<close> as the expression: the field ends as 6, the length of \<^verbatim>\<open>parsed\<close>,
  not as 12, the length of the raw tag, nor as 42, the result under \<^verbatim>\<open>n\<close>. The tag
  map in the context has lost the empty key only.
\<close>

theorem wholetag_key_in_tag_map:
  "(case Eval evEmptyKey 1 (Some (TPtr rawStruct, VPtr (Some (0, [])))) None heap0 of
      Some (Ret (e, h, [FT ln (Some (x, c, ip, hb)) res err nested])) \<Rightarrow>
        e = None \<and> ln = ''*structor_test.theStruct.A'' \<and> x = ''parsed''
        \<and> x \<noteq> ''raw tag text'' \<and> Tags c = [(''n'', ''x'')]
        \<and> ip x c hb = cc x c hb
        \<and> res = Some (TInt, VInt 6) \<and> h 0 = Some (VStruct [VInt 6])
    | _ \<Rightarrow> False)"
  by (simp add: run_defs evEmptyKey_def emptyKeyScanner_def rawStruct_def heap0_def cc_def
      const42_def noOptions_def)

subsection \<open>Construction\<close>

text \<open>
  C8. \<^verbatim>\<open>NewEvaluatorWithOptions\<close> panics exactly when the registry is empty, whatever
  the scanner and the options; with a registry that has an entry it returns the
  evaluator holding the three arguments. \<^verbatim>\<open>NewEvaluator\<close> and
  \<^verbatim>\<open>NewNonmutatingEvaluator\<close>, which call it, panic on the empty registry too.
\<close>

theorem empty_registry_panics:
  "NewEvaluatorWithOptions sc Map.empty opts = None
   \<and> NewEvaluator sc Map.empty = None
   \<and> NewNonmutatingEvaluator sc Map.empty = None
   \<and> (NewEvaluatorWithOptions sc is opts = None) = (is = Map.empty)
   \<and> (is \<noteq> Map.empty \<longrightarrow>
        NewEvaluatorWithOptions sc is opts
          = Some \<lparr>scanner = sc, interpreters = is, options = opts\<rparr>)"
  by (simp add: NewEvaluatorWithOptions_def NewEvaluator_def NewNonmutatingEvaluator_def)

theorem empty_registry_panics_witness:
  "[''cc'' \<mapsto> Some cc] \<noteq> Map.empty
   \<and> NewEvaluatorWithOptions sampleScanner [''cc'' \<mapsto> Some cc] noOptions = Some evCC
   \<and> NewEvaluatorWithOptions sampleScanner Map.empty noOptions = None"
proof -
  have ne: "[''cc'' \<mapsto> Some cc] \<noteq> Map.empty" by simp
  from empty_registry_panics [of sampleScanner noOptions "[''cc'' \<mapsto> Some cc]"] ne
  show ?thesis by (simp add: evCC_def)
qed


subsection \<open>Runs at inputs where the code departs from a claim\<close>

lemmas sample_defs = evTable_def evOtherOrder_def tableScanner_def otherOrderScanner_def
  registry_def noOptions_def cc_def const42_def nilInterp_def boom_def ptrStruct_def heapP_def
  twoKeys_def errStruct_def heapAB_def heap0_def innerStruct_def outerStruct_def
  outerFail_def heapK_def poke_def nonMutating_def evPoke_def evNonMut_def pokeStruct_def
  evEmptyTags_def evNilReg_def plainStruct_def ccStruct_def

text \<open>
  C2. The claim says that a root that is not a struct or a pointer to one makes
  \<^verbatim>\<open>Eval\<close> return an error at once. For a root of another kind the code does so. For
  nil, and for a nil pointer, it does not: \<^verbatim>\<open>reflect.Indirect(reflect.ValueOf(s))\<close> is the
  zero Value, and \<^verbatim>\<open>v.Type()\<close> in \<^verbatim>\<open>structIntrospect\<close> panics before the kind is
  looked at; nothing recovers the panic. This holds for every evaluator, extra value
  and memory.
\<close>

theorem nil_root_panics:
  "Eval ev (Suc n) None extra h
     = Some (Panic (PError ''reflect: call of reflect.Value.Type on zero Value''))
   \<and> Eval ev (Suc n) (Some (TPtr t, VPtr None)) extra h
     = Some (Panic (PError ''reflect: call of reflect.Value.Type on zero Value''))
   \<and> Eval ev (Suc n) (Some (TInt, VInt 3)) extra h
     = Some (Ret (Some (RootError (Some (TInt, VInt 3)) KInt), h, []))"
  by (simp add: run_defs)

text \<open>
  C4. The claim says that a nil result assigns the zero value of the field's declared
  type. With a field \<^verbatim>\<open>P *int\<close> that points to 5 and an interpreter that returns nil,
  \<^verbatim>\<open>reflectSet\<close> is given the pointee (\<^verbatim>\<open>fieldIntrospect\<close> stores
  \<^verbatim>\<open>reflect.Indirect\<close> of the field) and the declared type \<^verbatim>\<open>*int\<close>; setting an int to
  the zero value of \<^verbatim>\<open>*int\<close> panics, and the walk reports the recovered panic as the
  field's error. The pointer is not nil afterwards and the pointee is still 5.
\<close>

theorem nil_result_on_pointer_field:
  "(case Eval evTable 1 (Some (TPtr ptrStruct, VPtr (Some (0, [])))) None heapP of
      Some (Ret (e, h, ts)) \<Rightarrow>
        e = Some (Multi [Wrapped ''*structor_test.ptrStruct.P''
              ''structor: reflect.Set: value of type *int is not assignable to type int''])
        \<and> h 0 = Some (VStruct [VPtr (Some (1, []))]) \<and> h 1 = Some (VInt 5)
        \<and> h 0 \<noteq> Some (VStruct [Zero (TPtr TInt)])
        \<and> map ft_result ts = [None]
    | _ \<Rightarrow> False)"
  by (simp add: run_defs sample_defs)

text \<open>
  C9. The claim says that \<^verbatim>\<open>Eval\<close> is deterministic, and the comments at
  \<^verbatim>\<open>Interpreters\<close> and \<^verbatim>\<open>NewEvaluator\<close> say that the first tag is the one used. The
  code takes the first registered key in the order in which \<^verbatim>\<open>range\<close> visits the tag
  map, which Go does not fix. The two scanners below return the same tag map for every
  tag; for the field with the keys \<^verbatim>\<open>cc\<close> and \<^verbatim>\<open>n\<close>, both registered, the entries come
  in the two possible orders, and the same record ends with 9 in one run and 42 in the
  other.
\<close>

theorem range_order_decides:
  "(case (Eval evTable 1 (Some (TPtr twoKeys, VPtr (Some (0, [])))) None heap0,
          Eval evOtherOrder 1 (Some (TPtr twoKeys, VPtr (Some (0, [])))) None heap0) of
      (Some (Ret (e, h, ts)), Some (Ret (e', h', ts'))) \<Rightarrow>
        h 0 = Some (VStruct [VInt 9]) \<and> h' 0 = Some (VStruct [VInt 42])
        \<and> e = None \<and> e' = None
    | _ \<Rightarrow> False)
   \<and> (\<forall>tag. case (tableScanner tag, otherOrderScanner tag) of
          (Inr m, Inr m') \<Rightarrow> set m = set m' \<and> distinct (map fst m) \<and> distinct (map fst m')
        | (Inl x, Inl x') \<Rightarrow> x = x'
        | _ \<Rightarrow> False)"
proof -
  have 1: "(case (Eval evTable 1 (Some (TPtr twoKeys, VPtr (Some (0, [])))) None heap0,
          Eval evOtherOrder 1 (Some (TPtr twoKeys, VPtr (Some (0, [])))) None heap0) of
      (Some (Ret (e, h, ts)), Some (Ret (e', h', ts'))) \<Rightarrow>
        h 0 = Some (VStruct [VInt 9]) \<and> h' 0 = Some (VStruct [VInt 42])
        \<and> e = None \<and> e' = None
    | _ \<Rightarrow> False)"
    by (simp add: run_defs sample_defs)
  have 2: "\<forall>tag. case (tableScanner tag, otherOrderScanner tag) of
          (Inr m, Inr m') \<Rightarrow> set m = set m' \<and> distinct (map fst m) \<and> distinct (map fst m')
        | (Inl x, Inl x') \<Rightarrow> x = x'
        | _ \<Rightarrow> False"
    by (auto simp: tableScanner_def otherOrderScanner_def)
  from 1 2 show ?thesis by blast
qed

lemma showNat_1: "showNat 1 = ''1''"
  by code_simp

text \<open>
  C5. The claim says that the engine wraps an interpreter's error with the field's
  long name, as it does with the scanner's error (line 144) and the coercion error
  (line 167), so that the text of the aggregate contains \<^verbatim>\<open><<T.F>>\<close>; the repository's
  test asserts that substring. The code returns the interpreter's error as it is (line
  162). With an interpreter whose error is \<^verbatim>\<open>boom\<close> on field \<^verbatim>\<open>A\<close>, the aggregate holds
  that error alone and its text has no \<^verbatim>\<open><<*structor_test.errStruct.A>>\<close>. Field \<^verbatim>\<open>B\<close>
  is still evaluated and set.
\<close>

theorem interpreter_error_unwrapped:
  "(case Eval evTable 1 (Some (TPtr errStruct, VPtr (Some (0, [])))) None heapAB of
      Some (Ret (e, h, ts)) \<Rightarrow>
        e = Some (Multi [Raised ''boom''])
        \<and> map ft_long ts = [''*structor_test.errStruct.A'', ''*structor_test.errStruct.B'']
        \<and> h 0 = Some (VStruct [VInt 0, VInt 9])
    | _ \<Rightarrow> False)
   \<and> Error fmtv (Multi [Raised ''boom''])
        = ''1 error(s) occurred:'' @ [CHR 0x0A, CHR 0x0A] @ ''* boom''
   \<and> \<not> sublist ''<<*structor_test.errStruct.A>>'' (Error fmtv (Multi [Raised ''boom'']))"
proof -
  have r: "(case Eval evTable 1 (Some (TPtr errStruct, VPtr (Some (0, [])))) None heapAB of
      Some (Ret (e, h, ts)) \<Rightarrow>
        e = Some (Multi [Raised ''boom''])
        \<and> map ft_long ts = [''*structor_test.errStruct.A'', ''*structor_test.errStruct.B'']
        \<and> h 0 = Some (VStruct [VInt 0, VInt 9])
    | _ \<Rightarrow> False)"
    by (simp add: run_defs sample_defs)
  have t: "Error fmtv (Multi [Raised ''boom''])
      = ''1 error(s) occurred:'' @ [CHR 0x0A, CHR 0x0A] @ ''* boom''"
    using showNat_1 by (simp del: showNat.simps)
  have n: "\<not> sublist ''<<*structor_test.errStruct.A>>''
             (''1 error(s) occurred:'' @ [CHR 0x0A, CHR 0x0A] @ ''* boom'')"
    by (simp add: sublist_code prefix_code)
  from r t n show ?thesis by simp
qed


subsection \<open>The cases of the walk\<close>

text \<open>
  How the closure of one field can return: the scanner failed; the interpreter or the
  assignment failed; the interpreter succeeded and the tail ran; the field was skipped
  and the tail ran. The tail either finds no nested struct or descends.
\<close>

lemma evalTail_elim [consumes 1, case_names leaf descend]:
  assumes "evalTail rec f ln call result h = Some (Ret (e, h', t))"
  obtains (leaf) "nestedTarget h (f_value f) = Some (Ret None)" "e = None" "h' = h"
            "t = FT ln call result None None"
  | (descend) sb ts where "nestedTarget h (f_value f) = Some (Ret (Some sb))"
            "rec sb result h = Some (Ret (e, h', ts))"
            "t = FT ln call result None (Some ts)"
  using assms
  by (auto simp: evalTail_def split: option.splits res.splits)

lemma evalField_elim [consumes 1, case_names scan fail ok skip]:
  assumes "evalField rec ev s extra subctx cur val typ i h = Some (Ret (e, h', t))"
  obtains (scan) f m where "fieldIntrospect ev h val typ i = Some (f, Some m)"
            "e = Some (Wrapped (fmtT cur @ ''.'' @ f_name f) m)" "h' = h"
            "t = FT (fmtT cur @ ''.'' @ f_name f) None None
                   (Some (Wrapped (fmtT cur @ ''.'' @ f_name f) m)) None"
  | (fail) f e0 x c ip hb res where "fieldIntrospect ev h val typ i = Some (f, None)"
            "f_expr f \<noteq> [] \<or> EvalEmptyTags (options ev)"
            "evalBlock ev s extra subctx f (fmtT cur @ ''.'' @ f_name f) h
                = Some (Ret (Inl (e0, h', (x, c, ip, hb), res)))"
            "e = Some e0"
            "t = FT (fmtT cur @ ''.'' @ f_name f) (Some (x, c, ip, hb)) res (Some e0) None"
  | (ok) f res h1 x c ip hb where "fieldIntrospect ev h val typ i = Some (f, None)"
            "f_expr f \<noteq> [] \<or> EvalEmptyTags (options ev)"
            "evalBlock ev s extra subctx f (fmtT cur @ ''.'' @ f_name f) h
                = Some (Ret (Inr (res, h1, (x, c, ip, hb))))"
            "evalTail rec f (fmtT cur @ ''.'' @ f_name f) (Some (x, c, ip, hb)) res h1
                  = Some (Ret (e, h', t))"
  | (skip) f where "fieldIntrospect ev h val typ i = Some (f, None)"
            "f_expr f = []" "\<not> EvalEmptyTags (options ev)"
            "evalTail rec f (fmtT cur @ ''.'' @ f_name f) None None h = Some (Ret (e, h', t))"
proof (cases "fieldIntrospect ev h val typ i")
  case None
  with assms show ?thesis by (simp add: evalField_def)
next
  case (Some p)
  obtain f err0 where p: "p = (f, err0)" by (cases p)
  show ?thesis
  proof (cases err0)
    case (Some m)
    note fi = \<open>fieldIntrospect ev h val typ i = Some p\<close> [unfolded p Some]
    from assms fi have "e = Some (Wrapped (fmtT cur @ ''.'' @ f_name f) m)" "h' = h"
            "t = FT (fmtT cur @ ''.'' @ f_name f) None None
                   (Some (Wrapped (fmtT cur @ ''.'' @ f_name f) m)) None"
      by (auto simp: evalField_def Let_def)
    with fi show ?thesis by (rule scan)
  next
    case None
    note fi = \<open>fieldIntrospect ev h val typ i = Some p\<close> [unfolded p None]
    show ?thesis
    proof (cases "f_expr f \<noteq> [] \<or> EvalEmptyTags (options ev)")
      case False
      with assms fi have
        "evalTail rec f (fmtT cur @ ''.'' @ f_name f) None None h = Some (Ret (e, h', t))"
        by (simp add: evalField_def Let_def)
      with fi False show ?thesis by (intro skip) simp_all
    next
      case True
      show ?thesis
      proof (cases "evalBlock ev s extra subctx f (fmtT cur @ ''.'' @ f_name f) h")
        case None
        with assms fi True show ?thesis by (simp add: evalField_def Let_def)
      next
        case (Some b)
        show ?thesis
        proof (cases b)
          case (Panic r)
          with assms fi True Some show ?thesis by (simp add: evalField_def Let_def)
        next
          case (Ret y)
          show ?thesis
          proof (cases y)
            case (Inl a)
            obtain e0 h1 x c ip hb res where a: "a = (e0, h1, (x, c, ip, hb), res)"
              by (cases a) auto
            from assms fi True Some Ret Inl a have "h1 = h'" "e = Some e0"
              "t = FT (fmtT cur @ ''.'' @ f_name f) (Some (x, c, ip, hb)) res (Some e0) None"
              by (auto simp: evalField_def Let_def)
            with Some Ret Inl a fi True show ?thesis by (intro fail) simp_all
          next
            case (Inr a)
            obtain res h1 x c ip hb where a: "a = (res, h1, (x, c, ip, hb))"
              by (cases a) auto
            from assms fi True Some Ret Inr a have
              "evalTail rec f (fmtT cur @ ''.'' @ f_name f) (Some (x, c, ip, hb)) res h1
                  = Some (Ret (e, h', t))"
              by (simp add: evalField_def Let_def)
            with Some Ret Inr a fi True show ?thesis by (intro ok) simp_all
          qed
        qed
      qed
    qed
  qed
qed

lemma evalLoop_all:
  assumes "\<And>i h e h1 t. step i h = Some (Ret (e, h1, t)) \<Longrightarrow> P t"
    and "evalLoop step is merr h = Some (Ret (m, h2, ts))"
  shows "\<forall>t\<in>set ts. P t"
  using assms(2)
proof (induction "is" arbitrary: merr h m h2 ts)
  case Nil
  then show ?case by simp
next
  case (Cons i rest)
  from Cons.prems obtain err h1 t m' ts' where
    st: "step i h = Some (Ret (err, h1, t))"
    and lp: "evalLoop step rest (case err of None \<Rightarrow> merr | Some e \<Rightarrow> Some (Append merr e)) h1
               = Some (Ret (m', h2, ts'))"
    and ts: "ts = t # ts'"
    by (auto split: option.splits res.splits)
  from assms(1) [OF st] Cons.IH [OF lp] ts show ?case by simp
qed



subsection \<open>The expression context at every depth\<close>


lemma eval_loop_of:
  assumes "eval ev (Suc n) s extra substruct subctx h = Some (Ret (e, h', ts))"
  obtains (root) v ty err where
      "structIntrospect h (if substruct \<noteq> None then substruct else s) = Some (Ret (v, ty, Some err))"
      "e = Some err" "h' = h" "ts = []"
  | (walk) v ty where
      "structIntrospect h (if substruct \<noteq> None then substruct else s) = Some (Ret (v, ty, None))"
      "evalLoop (evalField (\<lambda>sub res h'. eval ev n s extra sub res h') ev s extra subctx
                  (if substruct \<noteq> None then substruct else s) v ty)
          [0..<NumField ty] None h = Some (Ret (e, h', ts))"
proof (cases "structIntrospect h (if substruct \<noteq> None then substruct else s)")
  case None
  with assms show ?thesis by (simp add: Let_def)
next
  case (Some a)
  show ?thesis
  proof (cases a)
    case (Panic r)
    with assms Some show ?thesis by (simp add: Let_def)
  next
    case (Ret y)
    obtain v ty err where y: "y = (v, ty, err)" by (cases y)
    show ?thesis
    proof (cases err)
      case None
      with assms Some Ret y have
        "evalLoop (evalField (\<lambda>sub res h'. eval ev n s extra sub res h') ev s extra subctx
                  (if substruct \<noteq> None then substruct else s) v ty)
          [0..<NumField ty] None h = Some (Ret (e, h', ts))"
        by (simp add: Let_def)
      with Some Ret y None show ?thesis by (intro walk) simp_all
    next
      case (Some err')
      with assms \<open>structIntrospect h (if substruct \<noteq> None then substruct else s) = Some a\<close> Ret y
      have "e = Some err'" "h' = h" "ts = []" by (auto simp: Let_def)
      with \<open>structIntrospect h (if substruct \<noteq> None then substruct else s) = Some a\<close> Ret y Some
      show ?thesis by (intro root) simp_all
    qed
  qed
qed





subsection \<open>Non-mutating mode\<close>

lemma fieldIntrospect_registered:
  assumes "fieldIntrospect ev h val typ i = Some (f, err)" and "f_interpreter f = Some ip"
  shows "\<exists>k. interpreters ev k = Some (Some ip)"
proof -
  from assms(1) obtain n ds where ty: "typ = TStruct n ds"
    by (cases "typ") (simp_all add: fieldIntrospect_def)
  show ?thesis
  proof (cases "scanner ev (fd_tag (ds ! i))")
    case (Inl m)
    with assms ty show ?thesis
      by (auto simp: fieldIntrospect_def Let_def split: if_splits option.splits)
  next
    case (Inr tags)
    note fs = fieldIntrospect_scanned [OF assms(1) [unfolded ty] Inr]
    show ?thesis
    proof (cases "rangeTags (interpreters ev) tags")
      case None
      with fs assms(2) show ?thesis
        by (cases "interpreters ev WholeTag") auto
    next
      case (Some a)
      obtain k t intr where a: "a = (k, t, intr)" by (cases a)
      from rangeTags_Some [OF Some [unfolded a]] have "interpreters ev k = Some intr" by blast
      with fs Some a assms(2) show ?thesis by auto
    qed
  qed
qed

lemma evalLoop_heap:
  assumes "\<And>i h e h1 t. step i h = Some (Ret (e, h1, t)) \<Longrightarrow> h1 = h"
    and "evalLoop step is merr h = Some (Ret (m, h2, ts))"
  shows "h2 = h"
  using assms(2)
proof (induction "is" arbitrary: merr h m ts)
  case Nil
  then show ?case by simp
next
  case (Cons i rest)
  from Cons.prems obtain err h1 t m' ts' where
    st: "step i h = Some (Ret (err, h1, t))"
    and lp: "evalLoop step rest (case err of None \<Rightarrow> merr | Some e \<Rightarrow> Some (Append merr e)) h1
               = Some (Ret (m', h2, ts'))"
    by (auto split: option.splits res.splits)
  from assms(1) [OF st] Cons.IH [OF lp] show ?case by simp
qed

lemma evalField_heap:
  assumes nm: "NonMutating (options ev)"
    and pure: "\<forall>k ip x c h. interpreters ev k = Some (Some ip) \<longrightarrow> snd (ip x c h) = h"
    and rec: "\<And>sb res h r. rec sb res h = Some (Ret r) \<Longrightarrow> fst (snd r) = h"
    and ev: "evalField rec ev s extra subctx cur val typ i h = Some (Ret (e, h', t))"
  shows "h' = h"
proof -
  have tail: "h' = h1"
    if tl: "evalTail rec f ln call result h1 = Some (Ret (e, h', t))" for f ln call result h1
    using tl
  proof (cases rule: evalTail_elim)
    case leaf
    then show ?thesis by simp
  next
    case (descend sb ts)
    from rec [OF descend(2)] show ?thesis by simp
  qed
  from ev show ?thesis
  proof (cases rule: evalField_elim)
    case (scan f m)
    then show ?thesis by simp
  next
    case (fail f e0 x c ip hb res)
    from evalBlock_Inl [OF fail(3)] have ip: "f_interpreter f = Some ip"
      by (elim conjE)
    from evalBlock_Inl [OF fail(3)] have hb: "hb = h"
      by (elim conjE)
    from fieldIntrospect_registered [OF fail(1) ip] pure have p: "snd (ip x c h) = h" by blast
    from evalBlock_Inl [OF fail(3)] have
      "(\<exists>m. fst (ip x c hb) = Inl m \<and> e0 = Raised m \<and> res = None \<and> h' = snd (ip x c hb))
        \<or> (\<exists>m. fst (ip x c hb) = Inr res \<and> \<not> NonMutating (options ev) \<and> f_settable f
              \<and> reflectSet (snd (ip x c hb)) (f_value f) (f_typ f) res = Some (Some m, h')
              \<and> e0 = Wrapped (fmtT cur @ ''.'' @ f_name f) m)"
      by (elim conjE)
    with nm have "h' = snd (ip x c hb)" by auto
    with p hb show ?thesis by simp
  next
    case (ok f res h1 x c ip hb)
    from evalBlock_Inr [OF ok(3)] have ip: "f_interpreter f = Some ip"
      by (elim conjE)
    from evalBlock_Inr [OF ok(3)] have hb: "hb = h"
      by (elim conjE)
    from fieldIntrospect_registered [OF ok(1) ip] pure have p: "snd (ip x c h) = h" by blast
    from evalBlock_Inr [OF ok(3)] have
      "if \<not> NonMutating (options ev) \<and> f_settable f
         then reflectSet (snd (ip x c hb)) (f_value f) (f_typ f) res = Some (None, h1)
         else h1 = snd (ip x c hb)"
      by (elim conjE)
    with nm have "h1 = snd (ip x c hb)" by simp
    with p hb tail [OF ok(4)] show ?thesis by simp
  next
    case (skip f)
    from tail [OF skip(4)] show ?thesis .
  qed
qed

lemma eval_heap:
  assumes nm: "NonMutating (options ev)"
    and pure: "\<forall>k ip x c h. interpreters ev k = Some (Some ip) \<longrightarrow> snd (ip x c h) = h"
  shows "eval ev n s extra substruct subctx h = Some (Ret r) \<Longrightarrow> fst (snd r) = h"
proof (induction n arbitrary: substruct subctx h r)
  case 0
  then show ?case by simp
next
  case (Suc n)
  obtain e h' ts where r: "r = (e, h', ts)" by (cases r)
  from Suc.prems [unfolded r] show ?case
  proof (cases rule: eval_loop_of)
    case (root v ty err)
    with r show ?thesis by simp
  next
    case (walk v ty)
    have "h' = h"
    proof (rule evalLoop_heap [OF _ walk(2)])
      fix i h0 e0 h1 t
      assume "evalField (\<lambda>sub res h'. eval ev n s extra sub res h') ev s extra subctx
                (if substruct \<noteq> None then substruct else s) v ty i h0 = Some (Ret (e0, h1, t))"
      then show "h1 = h0"
        by (rule evalField_heap [OF nm pure, rotated]) (rule Suc.IH)
    qed
    with r show ?thesis by simp
  qed
qed

text \<open>
  C7, as the code has it. In non-mutating mode the engine itself assigns nothing: if
  no registered interpreter changes memory, the memory after \<^verbatim>\<open>Eval\<close> is the memory
  before it, so every field at every depth, and every pointee, has its value from
  before the call; the interpreters are called all the same. For every interpreter,
  as the claim has it, this fails: an interpreter may write the record, which the
  comment at \<^verbatim>\<open>NewNonmutatingEvaluator\<close> says.
\<close>

theorem nonmutating_leaves_memory:
  assumes "NonMutating (options ev)"
    and "\<forall>k ip x c h. interpreters ev k = Some (Some ip) \<longrightarrow> snd (ip x c h) = h"
    and "Eval ev n s extra h = Some (Ret (e, h', ts))"
  shows "h' = h"
proof -
  from assms(3) have "eval ev n s extra None None h = Some (Ret (e, h', ts))"
    by (simp add: Eval_def)
  from eval_heap [OF assms(1,2) this] show ?thesis by simp
qed


theorem nonmutating_leaves_memory_witness:
  "NonMutating (options evNonMut)
   \<and> interpreters evNonMut = [''cc'' \<mapsto> Some cc]
   \<and> (\<exists>e h' ts. Eval evNonMut 2 (Some (TPtr outerStruct, VPtr (Some (0, [])))) None heapK
                    = Some (Ret (e, h', ts))
          \<and> h' = heapK \<and> h' 0 = Some (VStruct [VStruct [VInt 0]])
          \<and> map ft_result ts = [Some (TInt, VInt 9)])"
proof -
  let ?root = "Some (TPtr outerStruct, VPtr (Some (0, [])))"
  have nm: "NonMutating (options evNonMut)" by (simp add: evNonMut_def nonMutating_def)
  have pure: "\<forall>k ip x c h. interpreters evNonMut k = Some (Some ip) \<longrightarrow> snd (ip x c h) = h"
    by (auto simp: evNonMut_def cc_def split: if_splits)
  have run: "(case Eval evNonMut 2 ?root None heapK of
      Some (Ret (e, h, ts)) \<Rightarrow> map ft_result ts = [Some (TInt, VInt 9)]
    | _ \<Rightarrow> False)"
    by (simp add: run_defs sample_defs numeral_2_eq_2)
  obtain e h' ts where r: "Eval evNonMut 2 ?root None heapK = Some (Ret (e, h', ts))"
    and res: "map ft_result ts = [Some (TInt, VInt 9)]"
  proof (cases "Eval evNonMut 2 ?root None heapK")
    case None
    with run show ?thesis by simp
  next
    case (Some a)
    show ?thesis
    proof (cases a)
      case (Panic p)
      with run Some show ?thesis by simp
    next
      case (Ret y)
      obtain e h' ts where y: "y = (e, h', ts)" by (cases y)
      with run Some Ret have "map ft_result ts = [Some (TInt, VInt 9)]" by simp
      with Some Ret y that show ?thesis by simp
    qed
  qed
  from nonmutating_leaves_memory [OF nm pure r] have h: "h' = heapK" .
  then have h0: "h' 0 = Some (VStruct [VStruct [VInt 0]])" by (simp add: heapK_def)
  from r h h0 res have ex: "\<exists>e h' ts.
        Eval evNonMut 2 (Some (TPtr outerStruct, VPtr (Some (0, [])))) None heapK
          = Some (Ret (e, h', ts))
        \<and> h' = heapK \<and> h' 0 = Some (VStruct [VStruct [VInt 0]])
        \<and> map ft_result ts = [Some (TInt, VInt 9)]"
    by (intro exI [of _ e] exI [of _ h'] exI [of _ ts] conjI)
  have reg: "interpreters evNonMut = [''cc'' \<mapsto> Some cc]" by (simp add: evNonMut_def)
  from nm reg ex show ?thesis by (intro conjI)
qed

text \<open>
  The claim as stated fails with the interpreter that writes the record: in
  non-mutating mode the field \<^verbatim>\<open>A\<close>, 0 before the call, is 7 after it.
\<close>

theorem nonmutating_side_effect_counterexample:
  "NonMutating (options evPoke)
   \<and> heap0 0 = Some (VStruct [VInt 0])
   \<and> (case Eval evPoke 1 (Some (TPtr pokeStruct, VPtr (Some (0, [])))) None heap0 of
        Some (Ret (e, h, ts)) \<Rightarrow> e = None \<and> h 0 = Some (VStruct [VInt 7]) \<and> h \<noteq> heap0
      | _ \<Rightarrow> False)"
proof -
  have "(case Eval evPoke 1 (Some (TPtr pokeStruct, VPtr (Some (0, [])))) None heap0 of
        Some (Ret (e, h, ts)) \<Rightarrow> e = None \<and> h 0 = Some (VStruct [VInt 7])
      | _ \<Rightarrow> False)"
    by (simp add: run_defs sample_defs)
  moreover have "heap0 0 = Some (VStruct [VInt 0])" by (simp add: heap0_def)
  moreover have "NonMutating (options evPoke)" by (simp add: evPoke_def nonMutating_def)
  ultimately show ?thesis
    by (auto split: option.splits res.splits)
qed


subsection \<open>Calls on a nil interpreter\<close>


























subsection \<open>Descent into nested structs\<close>

lemma evalField_interp_fails:
  assumes fi: "fieldIntrospect ev h val ty i = Some (f, None)"
    and go: "f_expr f \<noteq> [] \<or> EvalEmptyTags (options ev)"
    and cv: "(if IsValid (f_value f) then Interface h (f_value f) else Some (Ret None))
               = Some (Ret cv)"
    and ip: "f_interpreter f = Some ip"
    and c: "c = \<lparr>Name = f_name f, LongName = fmtT cur @ ''.'' @ f_name f, Tags = f_tags f,
                  Struct = s, Extra = extra, Sub = subctx, Val = cv\<rparr>"
    and ex: "ip (f_expr f) c h = (Inl m, h1)"
  shows "evalField rec ev s extra subctx cur val ty i h
     = Some (Ret (Some (Raised m), h1,
                  FT (fmtT cur @ ''.'' @ f_name f) (Some (f_expr f, c, ip, h)) None
                     (Some (Raised m)) None))"
proof -
  from cv ip c ex have
    "evalBlock ev s extra subctx f (fmtT cur @ ''.'' @ f_name f) h
       = Some (Ret (Inl (Raised m, h1, (f_expr f, c, ip, h), None)))"
    by (simp add: evalBlock_def Let_def)
  with fi go show ?thesis by (simp add: evalField_def Let_def)
qed

lemma evalField_set_fails:
  assumes fi: "fieldIntrospect ev h val ty i = Some (f, None)"
    and go: "f_expr f \<noteq> [] \<or> EvalEmptyTags (options ev)"
    and cv: "(if IsValid (f_value f) then Interface h (f_value f) else Some (Ret None))
               = Some (Ret cv)"
    and ip: "f_interpreter f = Some ip"
    and c: "c = \<lparr>Name = f_name f, LongName = fmtT cur @ ''.'' @ f_name f, Tags = f_tags f,
                  Struct = s, Extra = extra, Sub = subctx, Val = cv\<rparr>"
    and ex: "ip (f_expr f) c h = (Inr res, h1)"
    and mut: "\<not> NonMutating (options ev)" "f_settable f"
    and st: "reflectSet h1 (f_value f) (f_typ f) res = Some (Some m, h2)"
  shows "evalField rec ev s extra subctx cur val ty i h
     = Some (Ret (Some (Wrapped (fmtT cur @ ''.'' @ f_name f) m), h2,
                  FT (fmtT cur @ ''.'' @ f_name f) (Some (f_expr f, c, ip, h)) res
                     (Some (Wrapped (fmtT cur @ ''.'' @ f_name f) m)) None))"
proof -
  from cv ip c ex mut st have
    "evalBlock ev s extra subctx f (fmtT cur @ ''.'' @ f_name f) h
       = Some (Ret (Inl (Wrapped (fmtT cur @ ''.'' @ f_name f) m, h2, (f_expr f, c, ip, h), res)))"
    by (simp add: evalBlock_def Let_def)
  with fi go show ?thesis by (simp add: evalField_def Let_def)
qed

lemma evalField_descends:
  assumes fi: "fieldIntrospect ev h val ty i = Some (f, None)"
    and go: "f_expr f \<noteq> [] \<or> EvalEmptyTags (options ev)"
    and cv: "(if IsValid (f_value f) then Interface h (f_value f) else Some (Ret None))
               = Some (Ret cv)"
    and ip: "f_interpreter f = Some ip"
    and c: "c = \<lparr>Name = f_name f, LongName = fmtT cur @ ''.'' @ f_name f, Tags = f_tags f,
                  Struct = s, Extra = extra, Sub = subctx, Val = cv\<rparr>"
    and ex: "ip (f_expr f) c h = (Inr res, h1)"
    and st: "if \<not> NonMutating (options ev) \<and> f_settable f
             then reflectSet h1 (f_value f) (f_typ f) res = Some (None, h2) else h2 = h1"
    and nt: "nestedTarget h2 (f_value f) = Some (Ret (Some sb))"
  shows "evalField rec ev s extra subctx cur val ty i h
     = (case rec sb res h2 of
          None \<Rightarrow> None
        | Some (Panic r) \<Rightarrow> Some (Panic r)
        | Some (Ret (e, h', ts)) \<Rightarrow>
            Some (Ret (e, h', FT (fmtT cur @ ''.'' @ f_name f) (Some (f_expr f, c, ip, h)) res
                                 None (Some ts))))"
proof -
  from cv ip c ex st have
    "evalBlock ev s extra subctx f (fmtT cur @ ''.'' @ f_name f) h
       = Some (Ret (Inr (res, h2, (f_expr f, c, ip, h))))"
    by (auto simp: evalBlock_def Let_def split: if_splits)
  with fi go nt show ?thesis
    by (simp add: evalField_def evalTail_def Let_def split: option.splits res.splits)
qed

lemma evalField_skipped_descends:
  assumes fi: "fieldIntrospect ev h val ty i = Some (f, None)"
    and sk: "f_expr f = []" "\<not> EvalEmptyTags (options ev)"
    and nt: "nestedTarget h (f_value f) = Some (Ret (Some sb))"
  shows "evalField rec ev s extra subctx cur val ty i h
     = (case rec sb None h of
          None \<Rightarrow> None
        | Some (Panic r) \<Rightarrow> Some (Panic r)
        | Some (Ret (e, h', ts)) \<Rightarrow>
            Some (Ret (e, h', FT (fmtT cur @ ''.'' @ f_name f) None None None (Some ts))))"
  using assms
  by (simp add: evalField_def evalTail_def Let_def split: option.splits res.splits)

lemma evalField_stops:
  assumes rec: "\<And>sb res h r. rec sb res h = Some (Ret r)
                  \<Longrightarrow> \<forall>t\<in>set (snd (snd r)). stops_on_failure t"
    and ev: "evalField rec ev s extra subctx cur val ty i h = Some (Ret (e, h', t))"
  shows "stops_on_failure t"
proof -
  have tail: "stops_on_failure t"
    if tl: "evalTail rec f ln call result h1 = Some (Ret (e, h', t))" for f ln call result h1
    using tl
  proof (cases rule: evalTail_elim)
    case leaf
    then show ?thesis by simp
  next
    case (descend sb ts)
    from rec [OF descend(2)] descend(3) show ?thesis by simp
  qed
  from ev show ?thesis
  proof (cases rule: evalField_elim)
    case (scan f m)
    then show ?thesis by simp
  next
    case (fail f e0 x c ip hb res)
    then show ?thesis by simp
  next
    case (ok f res h1 x c ip hb)
    from tail [OF ok(4)] show ?thesis .
  next
    case (skip f)
    from tail [OF skip(4)] show ?thesis .
  qed
qed

lemma eval_stops:
  "eval ev n s extra substruct subctx h = Some (Ret r)
     \<Longrightarrow> \<forall>t\<in>set (snd (snd r)). stops_on_failure t"
proof (induction n arbitrary: substruct subctx h r)
  case 0
  then show ?case by simp
next
  case (Suc n)
  obtain e h' ts where r: "r = (e, h', ts)" by (cases r)
  from Suc.prems [unfolded r] show ?case
  proof (cases rule: eval_loop_of)
    case (root v ty err)
    with r show ?thesis by simp
  next
    case (walk v ty)
    have "\<forall>t\<in>set ts. stops_on_failure t"
    proof (rule evalLoop_all [OF _ walk(2)])
      fix i h0 e0 h1 t
      assume "evalField (\<lambda>sub res h'. eval ev n s extra sub res h') ev s extra subctx
                (if substruct \<noteq> None then substruct else s) v ty i h0 = Some (Ret (e0, h1, t))"
      then show "stops_on_failure t"
        by (rule evalField_stops [rotated]) (rule Suc.IH)
    qed
    with r show ?thesis by simp
  qed
qed

text \<open>
  C6, as the code has it. For a field that the scanner accepted, the closure of
  \<^verbatim>\<open>eval\<close> descends into the nested struct only when the field's own evaluation did
  not fail. When the interpreter fails, or the assignment of its result fails, the
  closure returns that error at once: its result is fixed without the recursive call
  \<open>rec\<close>, and nothing is walked below the field. When the interpreter succeeds and
  the assignment succeeds, is skipped, or silently does nothing, and the field's value
  then is a nested struct, the closure's result is that of the recursive call on it,
  with the interpreter's result as the propagated value; a field without expression is
  descended into with nil as the propagated value. In every log of \<^verbatim>\<open>Eval\<close>, at
  every depth, a field with an error of its own has no nested walk.
\<close>

theorem descent_only_without_failure:
  assumes fi: "fieldIntrospect ev h val ty i = Some (f, None)"
  shows "((f_expr f \<noteq> [] \<or> EvalEmptyTags (options ev))
        \<and> (if IsValid (f_value f) then Interface h (f_value f) else Some (Ret None))
              = Some (Ret cv)
        \<and> f_interpreter f = Some ip
        \<and> c = \<lparr>Name = f_name f, LongName = fmtT cur @ ''.'' @ f_name f, Tags = f_tags f,
                 Struct = s, Extra = extra, Sub = subctx, Val = cv\<rparr>
      \<longrightarrow> (\<forall>m h1. ip (f_expr f) c h = (Inl m, h1)
             \<longrightarrow> evalField rec ev s extra subctx cur val ty i h
                   = Some (Ret (Some (Raised m), h1,
                        FT (fmtT cur @ ''.'' @ f_name f) (Some (f_expr f, c, ip, h)) None
                           (Some (Raised m)) None)))
        \<and> (\<forall>res h1 m h2. ip (f_expr f) c h = (Inr res, h1)
               \<and> \<not> NonMutating (options ev) \<and> f_settable f
               \<and> reflectSet h1 (f_value f) (f_typ f) res = Some (Some m, h2)
             \<longrightarrow> evalField rec ev s extra subctx cur val ty i h
                   = Some (Ret (Some (Wrapped (fmtT cur @ ''.'' @ f_name f) m), h2,
                        FT (fmtT cur @ ''.'' @ f_name f) (Some (f_expr f, c, ip, h)) res
                           (Some (Wrapped (fmtT cur @ ''.'' @ f_name f) m)) None)))
        \<and> (\<forall>res h1 h2 sb. ip (f_expr f) c h = (Inr res, h1)
               \<and> (if \<not> NonMutating (options ev) \<and> f_settable f
                   then reflectSet h1 (f_value f) (f_typ f) res = Some (None, h2)
                   else h2 = h1)
               \<and> nestedTarget h2 (f_value f) = Some (Ret (Some sb))
             \<longrightarrow> evalField rec ev s extra subctx cur val ty i h
                   = (case rec sb res h2 of
                        None \<Rightarrow> None
                      | Some (Panic r) \<Rightarrow> Some (Panic r)
                      | Some (Ret (e, h', ts)) \<Rightarrow>
                          Some (Ret (e, h',
                            FT (fmtT cur @ ''.'' @ f_name f) (Some (f_expr f, c, ip, h)) res
                               None (Some ts))))))
     \<and> (\<forall>sb. f_expr f = [] \<and> \<not> EvalEmptyTags (options ev)
               \<and> nestedTarget h (f_value f) = Some (Ret (Some sb))
           \<longrightarrow> evalField rec ev s extra subctx cur val ty i h
                 = (case rec sb None h of
                      None \<Rightarrow> None
                    | Some (Panic r) \<Rightarrow> Some (Panic r)
                    | Some (Ret (e, h', ts)) \<Rightarrow>
                        Some (Ret (e, h',
                          FT (fmtT cur @ ''.'' @ f_name f) None None None (Some ts)))))
     \<and> (\<forall>n s0 x0 h0 e h' ts. Eval ev n s0 x0 h0 = Some (Ret (e, h', ts))
           \<longrightarrow> (\<forall>t\<in>set ts. stops_on_failure t))"
proof (intro conjI impI allI)
  fix m h1
  assume "(f_expr f \<noteq> [] \<or> EvalEmptyTags (options ev))
        \<and> (if IsValid (f_value f) then Interface h (f_value f) else Some (Ret None))
              = Some (Ret cv)
        \<and> f_interpreter f = Some ip
        \<and> c = \<lparr>Name = f_name f, LongName = fmtT cur @ ''.'' @ f_name f, Tags = f_tags f,
                 Struct = s, Extra = extra, Sub = subctx, Val = cv\<rparr>"
    and "ip (f_expr f) c h = (Inl m, h1)"
  then show "evalField rec ev s extra subctx cur val ty i h
                   = Some (Ret (Some (Raised m), h1,
                        FT (fmtT cur @ ''.'' @ f_name f) (Some (f_expr f, c, ip, h)) None
                           (Some (Raised m)) None))"
    by (intro evalField_interp_fails [OF fi]) simp_all
next
  fix res h1 m h2
  assume "(f_expr f \<noteq> [] \<or> EvalEmptyTags (options ev))
        \<and> (if IsValid (f_value f) then Interface h (f_value f) else Some (Ret None))
              = Some (Ret cv)
        \<and> f_interpreter f = Some ip
        \<and> c = \<lparr>Name = f_name f, LongName = fmtT cur @ ''.'' @ f_name f, Tags = f_tags f,
                 Struct = s, Extra = extra, Sub = subctx, Val = cv\<rparr>"
    and "ip (f_expr f) c h = (Inr res, h1)
               \<and> \<not> NonMutating (options ev) \<and> f_settable f
               \<and> reflectSet h1 (f_value f) (f_typ f) res = Some (Some m, h2)"
  then show "evalField rec ev s extra subctx cur val ty i h
                   = Some (Ret (Some (Wrapped (fmtT cur @ ''.'' @ f_name f) m), h2,
                        FT (fmtT cur @ ''.'' @ f_name f) (Some (f_expr f, c, ip, h)) res
                           (Some (Wrapped (fmtT cur @ ''.'' @ f_name f) m)) None))"
    by (intro evalField_set_fails [OF fi, where ?h1.0 = h1]) simp_all
next
  fix res h1 h2 sb
  assume "(f_expr f \<noteq> [] \<or> EvalEmptyTags (options ev))
        \<and> (if IsValid (f_value f) then Interface h (f_value f) else Some (Ret None))
              = Some (Ret cv)
        \<and> f_interpreter f = Some ip
        \<and> c = \<lparr>Name = f_name f, LongName = fmtT cur @ ''.'' @ f_name f, Tags = f_tags f,
                 Struct = s, Extra = extra, Sub = subctx, Val = cv\<rparr>"
    and "ip (f_expr f) c h = (Inr res, h1)
               \<and> (if \<not> NonMutating (options ev) \<and> f_settable f
                   then reflectSet h1 (f_value f) (f_typ f) res = Some (None, h2)
                   else h2 = h1)
               \<and> nestedTarget h2 (f_value f) = Some (Ret (Some sb))"
  then show "evalField rec ev s extra subctx cur val ty i h
                   = (case rec sb res h2 of
                        None \<Rightarrow> None
                      | Some (Panic r) \<Rightarrow> Some (Panic r)
                      | Some (Ret (e, h', ts)) \<Rightarrow>
                          Some (Ret (e, h',
                            FT (fmtT cur @ ''.'' @ f_name f) (Some (f_expr f, c, ip, h)) res
                               None (Some ts))))"
    by (intro evalField_descends [OF fi, where ?h1.0 = h1]) simp_all
next
  fix sb
  assume "f_expr f = [] \<and> \<not> EvalEmptyTags (options ev)
               \<and> nestedTarget h (f_value f) = Some (Ret (Some sb))"
  then show "evalField rec ev s extra subctx cur val ty i h
                 = (case rec sb None h of
                      None \<Rightarrow> None
                    | Some (Panic r) \<Rightarrow> Some (Panic r)
                    | Some (Ret (e, h', ts)) \<Rightarrow>
                        Some (Ret (e, h',
                          FT (fmtT cur @ ''.'' @ f_name f) None None None (Some ts))))"
    by (intro evalField_skipped_descends [OF fi]) simp_all
next
  fix n s0 x0 h0 e h' ts
  assume "Eval ev n s0 x0 h0 = Some (Ret (e, h', ts))"
  then have "eval ev n s0 x0 None None h0 = Some (Ret (e, h', ts))" by (simp add: Eval_def)
  from eval_stops [OF this] show "\<forall>t\<in>set ts. stops_on_failure t" by simp
qed


theorem descent_only_without_failure_witness:
  "evalField (\<lambda>sb res h. None) evTable (Some (TPtr outerFail, VPtr (Some (0, [])))) None None
       (Some (TPtr outerFail, VPtr (Some (0, [])))) (RV outerFail (At (0, [])) False)
       outerFail 0 heapK
     = Some (Ret (Some (Raised ''boom''), heapK,
          FT ''*structor_test.outerFail.K''
             (Some (''x'', \<lparr>Name = ''K'', LongName = ''*structor_test.outerFail.K'',
                            Tags = [], Struct = Some (TPtr outerFail, VPtr (Some (0, []))),
                            Extra = None, Sub = None,
                            Val = Some (innerStruct, VStruct [VInt 0])\<rparr>, boom, heapK))
             None (Some (Raised ''boom'')) None))
   \<and> evalField (\<lambda>sb res h. None) evTable (Some (TPtr outerStruct, VPtr (Some (0, [])))) None None
       (Some (TPtr outerStruct, VPtr (Some (0, [])))) (RV outerStruct (At (0, [])) False)
       outerStruct 0 heapK
     = None
   \<and> nestedTarget heapK (RV innerStruct (At (0, [0])) False)
     = Some (Ret (Some (Some (TPtr innerStruct, VPtr (Some (0, [0]))))))"
proof -
  let ?rootF = "Some (TPtr outerFail, VPtr (Some (0, [])))"
  let ?rootS = "Some (TPtr outerStruct, VPtr (Some (0, [])))"
  let ?fv = "RV innerStruct (At (0, [0])) False"
  let ?fF = "\<lparr>f_name = ''K'', f_expr = ''x'', f_interpreter = Some boom, f_value = ?fv,
              f_typ = innerStruct, f_tags = [], f_settable = True\<rparr>"
  let ?fS = "\<lparr>f_name = ''K'', f_expr = ''something'', f_interpreter = Some cc, f_value = ?fv,
              f_typ = innerStruct, f_tags = [], f_settable = True\<rparr>"
  let ?cF = "\<lparr>Name = ''K'', LongName = ''*structor_test.outerFail.K'',
                            Tags = [], Struct = ?rootF,
                            Extra = None, Sub = None,
                            Val = Some (innerStruct, VStruct [VInt 0])\<rparr>"
  let ?cS = "\<lparr>Name = ''K'', LongName = ''*structor_test.outer.K'',
                            Tags = [], Struct = ?rootS,
                            Extra = None, Sub = None,
                            Val = Some (innerStruct, VStruct [VInt 0])\<rparr>"
  have fiF: "fieldIntrospect evTable heapK (RV outerFail (At (0, [])) False) outerFail 0
      = Some (?fF, None)"
    by (simp add: run_defs sample_defs)
  have fiS: "fieldIntrospect evTable heapK (RV outerStruct (At (0, [])) False) outerStruct 0
      = Some (?fS, None)"
    by (simp add: run_defs sample_defs)
  have cv: "(if IsValid ?fv then Interface heapK ?fv else Some (Ret None))
      = Some (Ret (Some (innerStruct, VStruct [VInt 0])))"
    by (simp add: run_defs sample_defs)
  have nt: "nestedTarget heapK ?fv
      = Some (Ret (Some (Some (TPtr innerStruct, VPtr (Some (0, [0]))))))"
    by (simp add: run_defs sample_defs)
  have bF: "boom ''x'' ?cF heapK = (Inl ''boom'', heapK)" by (simp add: boom_def)
  have bS: "cc ''something'' ?cS heapK = (Inr (Some (TInt, VInt 9)), heapK)"
    by (simp add: cc_def)
  have rs: "reflectSet heapK ?fv innerStruct (Some (TInt, VInt 9)) = Some (None, heapK)"
    by (simp add: run_defs sample_defs)
  have nm: "\<not> NonMutating (options evTable)" by (simp add: evTable_def noOptions_def)
  from descent_only_without_failure [OF fiF, of "Some (innerStruct, VStruct [VInt 0])" boom ?cF
      ?rootF ?rootF None None "\<lambda>sb res h. None"] cv bF
  have 1: "evalField (\<lambda>sb res h. None) evTable ?rootF None None ?rootF
      (RV outerFail (At (0, [])) False) outerFail 0 heapK
     = Some (Ret (Some (Raised ''boom''), heapK,
          FT ''*structor_test.outerFail.K'' (Some (''x'', ?cF, boom, heapK))
             None (Some (Raised ''boom'')) None))"
    by (simp add: fmtT_def outerFail_def)
  from descent_only_without_failure [OF fiS, of "Some (innerStruct, VStruct [VInt 0])" cc ?cS
      ?rootS ?rootS None None "\<lambda>sb res h. None"] cv bS rs nt nm
  have 2: "evalField (\<lambda>sb res h. None) evTable ?rootS None None ?rootS
      (RV outerStruct (At (0, [])) False) outerStruct 0 heapK = None"
    by (simp add: fmtT_def outerStruct_def)
  from 1 2 nt show ?thesis by simp
qed

text \<open>
  The claim as stated fails: the field \<^verbatim>\<open>K\<close> holds a nested struct, its interpreter
  fails, and the walk does not descend; the nested field \<^verbatim>\<open>L\<close> stays 0. With the
  succeeding interpreter on \<^verbatim>\<open>K\<close> the same record is descended into and \<^verbatim>\<open>L\<close>
  becomes 9.
\<close>

theorem no_descent_after_failure_counterexample:
  "nestedTarget heapK (RV innerStruct (At (0, [0])) False)
     = Some (Ret (Some (Some (TPtr innerStruct, VPtr (Some (0, [0]))))))
   \<and> (case Eval evTable 2 (Some (TPtr outerFail, VPtr (Some (0, [])))) None heapK of
        Some (Ret (e, h, ts)) \<Rightarrow>
          e = Some (Multi [Raised ''boom''])
          \<and> map ft_long ts = [''*structor_test.outerFail.K'']
          \<and> map ft_nested ts = [None]
          \<and> h 0 = Some (VStruct [VStruct [VInt 0]])
      | _ \<Rightarrow> False)
   \<and> (case Eval evTable 2 (Some (TPtr outerStruct, VPtr (Some (0, [])))) None heapK of
        Some (Ret (e, h, ts)) \<Rightarrow>
          e = None \<and> map ft_long ts = [''*structor_test.outer.K'']
          \<and> map (\<lambda>t. map_option (map ft_long) (ft_nested t)) ts
                = [Some [''*structor_test.inner.L'']]
          \<and> h 0 = Some (VStruct [VStruct [VInt 9]])
      | _ \<Rightarrow> False)"
  by (simp add: run_defs sample_defs numeral_2_eq_2)

end
